theory Spec2Isabelle
  imports Complex_Main
begin

section \<open>Python values used by the routers\<close>

text \<open>
  The routers raise Python exceptions and FastAPI HTTP errors. Every raise is a value
  of \<open>py_error\<close>; a function that can raise returns \<open>py_error + 'a\<close>.
  \<open>HTTPException n\<close> carries the status code.
\<close>

datatype py_error = ValueError | OverflowError | IntegrityError | HTTPException int

text \<open>
  A naive \<open>datetime.datetime\<close>, as \<open>datetime.now()\<close> returns it: the seven
  fields Python stores. Python integers are unbounded, hence \<open>int\<close>.
\<close>

record datetime =
  dt_year :: int
  dt_month :: int
  dt_day :: int
  dt_hour :: int
  dt_minute :: int
  dt_second :: int
  dt_microsecond :: int

subsection \<open>The calendar module\<close>

text \<open>\<open>calendar.isleap\<close>.\<close>

definition isleap :: "int \<Rightarrow> bool" where
  "isleap year = (year mod 4 = 0 \<and> (year mod 100 \<noteq> 0 \<or> year mod 400 = 0))"

text \<open>\<open>calendar.mdays\<close>, indexed by the month number (index 0 is unused).\<close>

definition mdays :: "int list" where
  "mdays = [0, 31, 28, 31, 30, 31, 30, 31, 31, 30, 31, 30, 31]"

text \<open>
  \<open>calendar.monthrange(year, month)[1]\<close>: the number of days of the month. A month
  outside 1..12 raises \<open>IllegalMonthError\<close>, a subclass of \<open>ValueError\<close>. The year is
  not restricted (the weekday computation folds years outside 1..9999 into range).
\<close>

definition monthrange_ndays :: "int \<Rightarrow> int \<Rightarrow> py_error + int" where
  "monthrange_ndays year month =
     (if \<not> (1 \<le> month \<and> month \<le> 12) then Inl ValueError
      else Inr (mdays ! nat month + (if month = 2 \<and> isleap year then 1 else 0)))"

subsection \<open>The datetime module\<close>

text \<open>\<open>datetime._days_in_month\<close>, for a month in 1..12.\<close>

definition days_in_month :: "int \<Rightarrow> int \<Rightarrow> int" where
  "days_in_month year month =
     (if month = 2 \<and> isleap year then 29 else mdays ! nat month)"

text \<open>
  The constructor \<open>datetime(year, month, day)\<close>: midnight of that day. It raises
  \<open>ValueError\<close> unless \<open>MINYEAR = 1 \<le> year \<le> 9999 = MAXYEAR\<close>, the month is in 1..12
  and the day is in 1..days of that month.
\<close>

definition midnight :: "int \<Rightarrow> int \<Rightarrow> int \<Rightarrow> datetime" where
  "midnight year month day =
     \<lparr>dt_year = year, dt_month = month, dt_day = day,
      dt_hour = 0, dt_minute = 0, dt_second = 0, dt_microsecond = 0\<rparr>"

definition mk_datetime :: "int \<Rightarrow> int \<Rightarrow> int \<Rightarrow> py_error + datetime" where
  "mk_datetime year month day =
     (if 1 \<le> year \<and> year \<le> 9999 \<and> 1 \<le> month \<and> month \<le> 12 \<and>
         1 \<le> day \<and> day \<le> days_in_month year month
      then Inr (midnight year month day)
      else Inl ValueError)"

text \<open>
  Comparison of naive datetimes is the lexicographic comparison of the seven fields.
\<close>

definition dt_tuple :: "datetime \<Rightarrow> int list" where
  "dt_tuple d = [dt_year d, dt_month d, dt_day d, dt_hour d, dt_minute d,
                 dt_second d, dt_microsecond d]"

fun lex_le :: "int list \<Rightarrow> int list \<Rightarrow> bool" where
  "lex_le [] ys = True"
| "lex_le (x # xs) [] = False"
| "lex_le (x # xs) (y # ys) = (x < y \<or> (x = y \<and> lex_le xs ys))"

definition dt_le :: "datetime \<Rightarrow> datetime \<Rightarrow> bool" where
  "dt_le a b = lex_le (dt_tuple a) (dt_tuple b)"

definition dt_less :: "datetime \<Rightarrow> datetime \<Rightarrow> bool" where
  "dt_less a b = (\<not> dt_le b a)"

text \<open>The values a \<open>datetime\<close> object can hold.\<close>

definition valid_datetime :: "datetime \<Rightarrow> bool" where
  "valid_datetime d =
     (1 \<le> dt_year d \<and> dt_year d \<le> 9999 \<and> 1 \<le> dt_month d \<and> dt_month d \<le> 12 \<and>
      1 \<le> dt_day d \<and> dt_day d \<le> days_in_month (dt_year d) (dt_month d) \<and>
      0 \<le> dt_hour d \<and> dt_hour d < 24 \<and> 0 \<le> dt_minute d \<and> dt_minute d < 60 \<and>
      0 \<le> dt_second d \<and> dt_second d < 60 \<and>
      0 \<le> dt_microsecond d \<and> dt_microsecond d < 1000000)"

text \<open>
  \<open>date.toordinal\<close>: the day number, 1 for 0001-01-01
  (\<open>_days_before_year\<close>, \<open>_days_before_month\<close>, \<open>_ymd2ord\<close>).
\<close>

definition days_before_year :: "int \<Rightarrow> int" where
  "days_before_year year =
     (let y = year - 1 in y * 365 + y div 4 - y div 100 + y div 400)"

definition DAYS_BEFORE_MONTH :: "int list" where
  "DAYS_BEFORE_MONTH = [-1, 0, 31, 59, 90, 120, 151, 181, 212, 243, 273, 304, 334]"

definition days_before_month :: "int \<Rightarrow> int \<Rightarrow> int" where
  "days_before_month year month =
     DAYS_BEFORE_MONTH ! nat month + (if month > 2 \<and> isleap year then 1 else 0)"

definition ymd2ord :: "int \<Rightarrow> int \<Rightarrow> int \<Rightarrow> int" where
  "ymd2ord year month day =
     days_before_year year + days_before_month year month + day"

definition toordinal :: "datetime \<Rightarrow> int" where
  "toordinal d = ymd2ord (dt_year d) (dt_month d) (dt_day d)"

section \<open>Fixed payments (routers/fixed\_payments.py)\<close>

record fixed_payment =
  fp_id :: int
  fp_user_id :: int
  fp_name :: string
  fp_amount :: real
  fp_due_day :: int
  fp_is_active :: bool
  fp_auto_register :: bool

text \<open>
  The body of the \<open>try\<close> block of \<open>calculate_next_due_date\<close>. When a
  \<open>ValueError\<close> is raised the result is \<open>Inl (year, month, max_day)\<close>: the values
  these three variables hold at that point, which the handler reads.
\<close>

definition next_due_try :: "datetime \<Rightarrow> int \<Rightarrow> int \<Rightarrow> (int \<times> int \<times> int) + datetime" where
  "next_due_try now due_day max_day0 =
     (let year = dt_year now; month = dt_month now;
          actual_due_day = min due_day max_day0
      in case mk_datetime year month actual_due_day of
           Inl e \<Rightarrow> Inl (year, month, max_day0)
         | Inr next_due \<Rightarrow>
             if dt_le next_due now then
               (let (year, month) = (if month = 12 then (year + 1, 1) else (year, month + 1))
                in case monthrange_ndays year month of
                     Inl e \<Rightarrow> Inl (year, month, max_day0)
                   | Inr max_day \<Rightarrow>
                       (let actual_due_day = min due_day max_day
                        in case mk_datetime year month actual_due_day of
                             Inl e \<Rightarrow> Inl (year, month, max_day)
                           | Inr next_due \<Rightarrow> Inr next_due))
             else Inr next_due)"

text \<open>
  \<open>calculate_next_due_date\<close>; the clock reading \<open>datetime.now()\<close> is the parameter
  \<open>now\<close>. The first \<open>monthrange\<close> call is outside the \<open>try\<close>; the handler's own
  constructor call can raise again.
\<close>

definition calculate_next_due_date :: "datetime \<Rightarrow> int \<Rightarrow> py_error + datetime" where
  "calculate_next_due_date now due_day =
     (case monthrange_ndays (dt_year now) (dt_month now) of
        Inl e \<Rightarrow> Inl e
      | Inr max_day \<Rightarrow>
          (case next_due_try now due_day max_day of
             Inr next_due \<Rightarrow> Inr next_due
           | Inl (year, month, max_day') \<Rightarrow> mk_datetime year month max_day'))"

definition get_payment_status :: "fixed_payment \<Rightarrow> int \<Rightarrow> string" where
  "get_payment_status payment days_until_due =
     (if \<not> fp_is_active payment then ''inactive''
      else if days_until_due < 0 then ''overdue''
      else if days_until_due = 0 then ''due''
      else if days_until_due \<le> 2 then ''warning''
      else ''upcoming'')"

text \<open>
  The row \<open>get_fixed_payments\<close> builds for one payment: the payment with
  \<open>next_due\<close>, \<open>days_until_due\<close> and \<open>status\<close>. The loop body reads the clock twice,
  once inside \<open>calculate_next_due_date\<close> (\<open>now1\<close>) and once for the day difference
  (\<open>now2\<close>).
\<close>

record fixed_payment_with_status =
  fps_payment :: fixed_payment
  fps_next_due :: datetime
  fps_days_until_due :: int
  fps_status :: string

definition payment_with_status ::
  "datetime \<Rightarrow> datetime \<Rightarrow> fixed_payment \<Rightarrow> py_error + fixed_payment_with_status" where
  "payment_with_status now1 now2 payment =
     (case calculate_next_due_date now1 (fp_due_day payment) of
        Inl e \<Rightarrow> Inl e
      | Inr next_due \<Rightarrow>
          (let days_until_due = toordinal next_due - toordinal now2;
               status = get_payment_status payment days_until_due
           in Inr \<lparr>fps_payment = payment, fps_next_due = next_due,
                   fps_days_until_due = days_until_due, fps_status = status\<rparr>))"

text \<open>
  \<open>get_fixed_payments\<close>: the rows of the caller's payments, in table order. \<open>clock k\<close>
  is the \<open>k\<close>-th reading of \<open>datetime.now()\<close> during the request; the first raise
  aborts the request.
\<close>

fun fixed_payments_loop ::
  "(nat \<Rightarrow> datetime) \<Rightarrow> nat \<Rightarrow> fixed_payment list \<Rightarrow> py_error + fixed_payment_with_status list" where
  "fixed_payments_loop clock k [] = Inr []"
| "fixed_payments_loop clock k (payment # payments) =
     (case payment_with_status (clock k) (clock (Suc k)) payment of
        Inl e \<Rightarrow> Inl e
      | Inr row \<Rightarrow>
          (case fixed_payments_loop clock (Suc (Suc k)) payments of
             Inl e \<Rightarrow> Inl e
           | Inr rows \<Rightarrow> Inr (row # rows)))"

definition get_fixed_payments ::
  "(nat \<Rightarrow> datetime) \<Rightarrow> fixed_payment list \<Rightarrow> int \<Rightarrow> py_error + fixed_payment_with_status list" where
  "get_fixed_payments clock db current_user_id =
     fixed_payments_loop clock 0 (filter (\<lambda>p. fp_user_id p = current_user_id) db)"

section \<open>The tables (models.py)\<close>

text \<open>
  A table is the list of its rows in insertion order. \<open>Float\<close> columns hold real
  numbers here: the rounding of floating-point arithmetic is not modelled. The
  server-managed timestamp columns \<open>created_at\<close> and \<open>updated_at\<close> are left out.
\<close>

record user =
  u_id :: int
  u_email :: string
  u_name :: string

datatype transaction_type = INCOME | EXPENSE

record transaction =
  t_id :: int
  t_user_id :: int
  t_amount :: real
  t_description :: string
  t_category :: string
  t_type :: transaction_type
  t_date :: datetime

record budget =
  b_id :: int
  b_user_id :: int
  b_category :: string
  b_amount :: real
  b_month :: int
  b_year :: int

datatype notification_type =
  BUDGET_WARNING | BUDGET_EXCEEDED | PAYMENT_REMINDER | INSUFFICIENT_FUNDS | REPORT

record notification =
  n_id :: int
  n_user_id :: int
  n_title :: string
  n_message :: string
  n_notification_type :: notification_type
  n_is_read :: bool
  n_sent_via_email :: bool
  n_sent_via_sms :: bool

text \<open>
  The primary key the database gives a new row: one more than the largest key in the
  table (1 for an empty table).
\<close>

definition next_id :: "int list \<Rightarrow> int" where
  "next_id ids = fold max ids 0 + 1"

text \<open>
  \<open>func.sum(...).scalar()\<close> is \<open>None\<close> (SQL \<open>NULL\<close>) when no row matches;
  \<open>x or 0\<close> replaces \<open>None\<close> and a zero sum by \<open>0\<close>.
\<close>

definition sql_sum :: "real list \<Rightarrow> real option" where
  "sql_sum xs = (if xs = [] then None else Some (sum_list xs))"

definition or_zero :: "real option \<Rightarrow> real" where
  "or_zero x = (case x of None \<Rightarrow> 0 | Some v \<Rightarrow> if v = 0 then 0 else v)"

text \<open>
  The filter \<open>extract('month', Transaction.date) == month\<close>,
  \<open>extract('year', Transaction.date) == year\<close>.
\<close>

definition in_period :: "int \<Rightarrow> int \<Rightarrow> transaction \<Rightarrow> bool" where
  "in_period month year t = (dt_month (t_date t) = month \<and> dt_year (t_date t) = year)"

text \<open>
  The optional query parameters \<open>month\<close> and \<open>year\<close>: \<open>if not month or not year\<close> the
  missing one is taken from the clock (\<open>month or now.month\<close>, \<open>year or now.year\<close>).
  \<open>None\<close> and \<open>0\<close> are the falsy values.
\<close>

definition truthy :: "int option \<Rightarrow> bool" where
  "truthy x = (case x of None \<Rightarrow> False | Some v \<Rightarrow> v \<noteq> 0)"

definition py_or :: "int option \<Rightarrow> int \<Rightarrow> int" where
  "py_or x d = (case x of None \<Rightarrow> d | Some v \<Rightarrow> if v \<noteq> 0 then v else d)"

definition default_period :: "datetime \<Rightarrow> int option \<Rightarrow> int option \<Rightarrow> int \<times> int" where
  "default_period now month year =
     (if \<not> truthy month \<or> \<not> truthy year
      then (py_or month (dt_month now), py_or year (dt_year now))
      else (py_or month 0, py_or year 0))"

section \<open>Budgets (routers/budgets.py)\<close>

definition calculate_budget_status :: "budget \<Rightarrow> real \<Rightarrow> string" where
  "calculate_budget_status budget spent_amount =
     (let percentage = (if b_amount budget > 0 then (spent_amount / b_amount budget) * 100 else 0)
      in if percentage \<ge> 100 then ''exceeded''
         else if percentage \<ge> 80 then ''warning''
         else ''normal'')"

text \<open>
  The body of the loop of \<open>get_budgets\<close> (the same statements build \<open>budget_status\<close>
  in \<open>get_dashboard_data\<close>): the spend of one budget, its percentage and its status.
\<close>

record budget_with_spent =
  bws_budget :: budget
  bws_spent_amount :: real
  bws_percentage :: real
  bws_status :: string

definition budget_spent :: "transaction list \<Rightarrow> int \<Rightarrow> budget \<Rightarrow> int \<Rightarrow> int \<Rightarrow> real" where
  "budget_spent db user_id budget month year =
     or_zero (sql_sum (map t_amount (filter (\<lambda>t.
        t_user_id t = user_id \<and> t_category t = b_category budget \<and>
        t_type t = EXPENSE \<and> in_period month year t) db)))"

definition evaluate_budget :: "budget \<Rightarrow> real \<Rightarrow> budget_with_spent" where
  "evaluate_budget budget spent =
     (let spent_amount = \<bar>spent\<bar>;
          percentage = (if b_amount budget > 0 then (spent_amount / b_amount budget) * 100 else 0);
          status = calculate_budget_status budget spent_amount
      in \<lparr>bws_budget = budget, bws_spent_amount = spent_amount,
          bws_percentage = percentage, bws_status = status\<rparr>)"

definition get_budgets ::
  "datetime \<Rightarrow> int option \<Rightarrow> int option \<Rightarrow> budget list \<Rightarrow> transaction list \<Rightarrow> user
     \<Rightarrow> budget_with_spent list" where
  "get_budgets now month year budgets transactions current_user =
     (let (month, year) = default_period now month year
      in map (\<lambda>budget. evaluate_budget budget
                (budget_spent transactions (u_id current_user) budget month year))
           (filter (\<lambda>b. b_user_id b = u_id current_user \<and> b_month b = month \<and> b_year b = year)
              budgets))"

text \<open>
  \<open>create_budget\<close>. The request body \<open>BudgetCreate\<close> carries category, amount, month
  and year. The result is the response together with the table after the request.
\<close>

record budget_create =
  bc_category :: string
  bc_amount :: real
  bc_month :: int
  bc_year :: int

definition create_budget ::
  "budget_create \<Rightarrow> budget list \<Rightarrow> user \<Rightarrow> (py_error + budget) \<times> budget list" where
  "create_budget budget db current_user =
     (case filter (\<lambda>b. b_user_id b = u_id current_user \<and> b_category b = bc_category budget \<and>
                        b_month b = bc_month budget \<and> b_year b = bc_year budget) db of
        existing_budget # _ \<Rightarrow> (Inl (HTTPException 400), db)
      | [] \<Rightarrow>
          (let db_budget = \<lparr>b_id = next_id (map b_id db), b_user_id = u_id current_user,
                             b_category = bc_category budget, b_amount = bc_amount budget,
                             b_month = bc_month budget, b_year = bc_year budget\<rparr>
           in (Inr db_budget, db @ [db_budget])))"

text \<open>
  \<open>update_budget\<close>. \<open>BudgetUpdate\<close> has the single field \<open>amount: Optional[float]\<close>;
  \<open>dict(exclude_unset=True)\<close> yields it only when the request set it. \<open>bu_amount\<close> is
  \<open>None\<close> when unset, \<open>Some None\<close> for an explicit null and \<open>Some (Some v)\<close> for a
  number. The column \<open>amount\<close> is not nullable, so the commit of a null raises
  \<open>IntegrityError\<close> and the table is unchanged.
\<close>

record budget_update =
  bu_amount :: "real option option"

fun replace_first :: "('a \<Rightarrow> bool) \<Rightarrow> 'a \<Rightarrow> 'a list \<Rightarrow> 'a list" where
  "replace_first P y [] = []"
| "replace_first P y (x # xs) = (if P x then y # xs else x # replace_first P y xs)"

definition update_budget ::
  "int \<Rightarrow> budget_update \<Rightarrow> budget list \<Rightarrow> user \<Rightarrow> (py_error + budget) \<times> budget list" where
  "update_budget budget_id budget_update db current_user =
     (case filter (\<lambda>b. b_id b = budget_id \<and> b_user_id b = u_id current_user) db of
        [] \<Rightarrow> (Inl (HTTPException 404), db)
      | budget # _ \<Rightarrow>
          (case bu_amount budget_update of
             None \<Rightarrow> (Inr budget, db)
           | Some None \<Rightarrow> (Inl IntegrityError, db)
           | Some (Some v) \<Rightarrow>
               (let budget' = budget\<lparr>b_amount := v\<rparr>
                in (Inr budget',
                    replace_first (\<lambda>b. b_id b = budget_id \<and> b_user_id b = u_id current_user)
                      budget' db))))"

text \<open>
  The key under which budgets are unique: (user, category, month, year). It names the
  columns compared by the duplicate check of \<open>create_budget\<close>.
\<close>

definition budget_key :: "budget \<Rightarrow> int \<times> string \<times> int \<times> int" where
  "budget_key b = (b_user_id b, b_category b, b_month b, b_year b)"

section \<open>Notifications (routers/notifications.py)\<close>

text \<open>
  \<open>create_notification\<close> builds the row from the request body alone
  (\<open>Notification(**notification.dict())\<close>); \<open>current_user\<close> is resolved but not read.
  The flags take their column defaults. \<open>user_id\<close> is a foreign key to \<open>users.id\<close>:
  a database that enforces foreign keys (\<open>fk_enforced\<close>) rejects an unknown user
  at commit.
\<close>

record notification_create =
  nc_title :: string
  nc_message :: string
  nc_notification_type :: notification_type
  nc_user_id :: int

definition create_notification ::
  "bool \<Rightarrow> notification_create \<Rightarrow> user list \<Rightarrow> notification list \<Rightarrow> user
     \<Rightarrow> (py_error + notification) \<times> notification list" where
  "create_notification fk_enforced notification users db current_user =
     (let db_notification =
            \<lparr>n_id = next_id (map n_id db), n_user_id = nc_user_id notification,
             n_title = nc_title notification, n_message = nc_message notification,
             n_notification_type = nc_notification_type notification,
             n_is_read = False, n_sent_via_email = False, n_sent_via_sms = False\<rparr>
      in if fk_enforced \<and> nc_user_id notification \<notin> set (map u_id users)
         then (Inl IntegrityError, db)
         else (Inr db_notification, db @ [db_notification]))"

section \<open>Analytics (routers/analytics.py)\<close>

text \<open>
  The monthly analysis of \<open>get_dashboard_data\<close>: the three aggregate queries and the
  \<open>MonthlyAnalysis\<close> built from them. \<open>func.count\<close> is the number of matching rows.
\<close>

record monthly_analysis =
  total_income :: real
  total_expenses :: real
  balance :: real
  transactions_count :: int

definition income_sum :: "transaction list \<Rightarrow> int \<Rightarrow> int \<Rightarrow> int \<Rightarrow> real" where
  "income_sum db user_id month year =
     or_zero (sql_sum (map t_amount (filter (\<lambda>t.
        t_user_id t = user_id \<and> t_type t = INCOME \<and> in_period month year t) db)))"

definition expense_sum :: "transaction list \<Rightarrow> int \<Rightarrow> int \<Rightarrow> int \<Rightarrow> real" where
  "expense_sum db user_id month year =
     \<bar>or_zero (sql_sum (map t_amount (filter (\<lambda>t.
        t_user_id t = user_id \<and> t_type t = EXPENSE \<and> in_period month year t) db)))\<bar>"

definition dashboard_monthly_analysis ::
  "datetime \<Rightarrow> int option \<Rightarrow> int option \<Rightarrow> transaction list \<Rightarrow> user \<Rightarrow> monthly_analysis" where
  "dashboard_monthly_analysis now month year db current_user =
     (let (month, year) = default_period now month year;
          income_sum = income_sum db (u_id current_user) month year;
          expense_sum = expense_sum db (u_id current_user) month year;
          transactions_count = int (length (filter (\<lambda>t.
             t_user_id t = u_id current_user \<and> in_period month year t) db))
      in \<lparr>total_income = income_sum, total_expenses = expense_sum,
          balance = income_sum - expense_sum, transactions_count = transactions_count\<rparr>)"

text \<open>
  The category analysis of \<open>get_dashboard_data\<close>. \<open>group_by_category\<close> is the
  \<open>GROUP BY Transaction.category\<close> query: one row (category, total, count) for each
  category among the filtered rows. The query has no \<open>ORDER BY\<close>, so the order of the
  groups is the database's choice: \<open>group_order\<close> takes the category column of the
  filtered rows to the categories in the order the database returns them (each
  category once).
\<close>

record category_analysis =
  ca_category :: string
  ca_amount :: real
  ca_percentage :: real
  ca_transaction_count :: int

definition group_by_category ::
  "(string list \<Rightarrow> string list) \<Rightarrow> transaction list \<Rightarrow> (string \<times> real \<times> int) list" where
  "group_by_category group_order xs =
     map (\<lambda>c. (c, sum_list (map t_amount (filter (\<lambda>t. t_category t = c) xs)),
                 int (length (filter (\<lambda>t. t_category t = c) xs))))
       (group_order (map t_category xs))"

definition dashboard_category_breakdown ::
  "(string list \<Rightarrow> string list) \<Rightarrow> datetime \<Rightarrow> int option \<Rightarrow> int option
     \<Rightarrow> transaction list \<Rightarrow> user \<Rightarrow> category_analysis list" where
  "dashboard_category_breakdown group_order now month year db current_user =
     (let (month, year) = default_period now month year;
          expense_sum = expense_sum db (u_id current_user) month year;
          category_data = group_by_category group_order (filter (\<lambda>t.
             t_user_id t = u_id current_user \<and> t_type t = EXPENSE \<and> in_period month year t) db)
      in map (\<lambda>(category, total, count).
                let amount = \<bar>total\<bar>;
                    percentage = (if expense_sum > 0 then amount / expense_sum * 100 else 0)
                in \<lparr>ca_category = category, ca_amount = amount,
                    ca_percentage = percentage, ca_transaction_count = count\<rparr>)
           category_data)"

text \<open>
  What every database guarantees of the groups: each category of the column occurs
  exactly once.
\<close>

definition valid_group_order :: "(string list \<Rightarrow> string list) \<Rightarrow> bool" where
  "valid_group_order group_order =
     (\<forall>cs. distinct (group_order cs) \<and> set (group_order cs) = set cs)"

subsection \<open>The monthly trend\<close>

text \<open>
  \<open>datetime._ord2ymd\<close>, the inverse of \<open>_ymd2ord\<close>, and \<open>now - timedelta(days=k)\<close>:
  the same time of day \<open>k\<close> days earlier. The subtraction raises \<open>OverflowError\<close> when
  the day number leaves \<open>1..3652059\<close> (the ordinal of 9999-12-31).
\<close>

definition DAYS_IN_MONTH :: "int list" where
  "DAYS_IN_MONTH = [-1, 31, 28, 31, 30, 31, 30, 31, 31, 30, 31, 30, 31]"

definition ord2ymd :: "int \<Rightarrow> int \<times> int \<times> int" where
  "ord2ymd n0 =
     (let n = n0 - 1;
          n400 = n div 146097; n = n mod 146097;
          year = n400 * 400 + 1;
          n100 = n div 36524; n = n mod 36524;
          n4 = n div 1461; n = n mod 1461;
          n1 = n div 365; n = n mod 365;
          year = year + (n100 * 100 + n4 * 4 + n1)
      in if n1 = 4 \<or> n100 = 4 then (year - 1, 12, 31)
         else
           (let leapyear = (n1 = 3 \<and> (n4 \<noteq> 24 \<or> n100 = 3));
                month = (n + 50) div 32;
                preceding = DAYS_BEFORE_MONTH ! nat month + (if month > 2 \<and> leapyear then 1 else 0)
            in if preceding > n then
                 (let month = month - 1;
                      preceding = preceding -
                        (DAYS_IN_MONTH ! nat month + (if month = 2 \<and> leapyear then 1 else 0))
                  in (year, month, n - preceding + 1))
               else (year, month, n - preceding + 1)))"

definition dt_sub_days :: "datetime \<Rightarrow> int \<Rightarrow> py_error + datetime" where
  "dt_sub_days d k =
     (let days = toordinal d - k
      in if 0 < days \<and> days \<le> 3652059
         then (case ord2ymd days of
                 (year, month, day) \<Rightarrow> Inr (d\<lparr>dt_year := year, dt_month := month, dt_day := day\<rparr>))
         else Inl OverflowError)"

text \<open>
  The dictionary key \<open>f"{int(year)}-{int(month):02d}"\<close>: the decimal digits of the
  year, a dash, and the month padded with zeros to width two.
\<close>

definition digit_char :: "nat \<Rightarrow> char" where
  "digit_char k = ''0123456789'' ! k"

fun dec_digits :: "nat \<Rightarrow> string" where
  "dec_digits n = (if n < 10 then [digit_char n]
                   else dec_digits (n div 10) @ [digit_char (n mod 10)])"

declare dec_digits.simps [simp del]

definition str_int :: "int \<Rightarrow> string" where
  "str_int i = (if i < 0 then ''-'' @ dec_digits (nat (- i)) else dec_digits (nat i))"

definition format_02d :: "int \<Rightarrow> string" where
  "format_02d i = (let s = str_int i in replicate (2 - length s) (CHR ''0'') @ s)"

definition trend_key :: "int \<Rightarrow> int \<Rightarrow> string" where
  "trend_key year month = str_int year @ ''-'' @ format_02d month"

text \<open>
  The grouped query of \<open>get_monthly_trend\<close>: one row (year, month, type, total) for each
  (year, month, type) among the filtered rows.
\<close>

definition monthly_data :: "transaction list \<Rightarrow> (int \<times> int \<times> transaction_type \<times> real) list" where
  "monthly_data xs =
     map (\<lambda>(y, m, ty). (y, m, ty,
            sum_list (map t_amount (filter (\<lambda>t. dt_year (t_date t) = y \<and>
               dt_month (t_date t) = m \<and> t_type t = ty) xs))))
       (remdups (map (\<lambda>t. (dt_year (t_date t), dt_month (t_date t), t_type t)) xs))"

text \<open>
  The loop that fills \<open>trend_data\<close>, a dictionary from the key to the pair
  \<open>{"income", "expenses"}\<close>. \<open>trend_step\<close> is the loop body for one row.
\<close>

record trend_entry =
  income :: real
  expenses :: real

definition trend_step ::
  "int \<times> int \<times> transaction_type \<times> real \<Rightarrow> (string \<rightharpoonup> trend_entry) \<Rightarrow> (string \<rightharpoonup> trend_entry)" where
  "trend_step row trend_data =
     (case row of (year, month, transaction_type, total') \<Rightarrow>
        (let key = trend_key year month;
             entry = (case trend_data key of
                        None \<Rightarrow> \<lparr>income = 0, expenses = 0\<rparr>
                      | Some e \<Rightarrow> e)
         in if transaction_type = INCOME
            then trend_data(key \<mapsto> entry\<lparr>income := total'\<rparr>)
            else trend_data(key \<mapsto> entry\<lparr>expenses := \<bar>total'\<bar>\<rparr>)))"

fun trend_loop ::
  "(int \<times> int \<times> transaction_type \<times> real) list \<Rightarrow> (string \<rightharpoonup> trend_entry)
     \<Rightarrow> (string \<rightharpoonup> trend_entry)" where
  "trend_loop [] trend_data = trend_data"
| "trend_loop (row # rows) trend_data = trend_loop rows (trend_step row trend_data)"

text \<open>
  \<open>get_monthly_trend\<close>. \<open>months\<close> is validated by \<open>Query(6, ge=1, le=24)\<close> (status 422
  outside the range). The query keeps the caller's rows with
  \<open>Transaction.date >= start_date\<close>; \<open>end_date\<close> is used only to compute \<open>start_date\<close>.
\<close>

definition trend_window :: "datetime \<Rightarrow> transaction list \<Rightarrow> user \<Rightarrow> transaction list" where
  "trend_window start_date db current_user =
     filter (\<lambda>t. t_user_id t = u_id current_user \<and> dt_le start_date (t_date t)) db"

definition get_monthly_trend ::
  "datetime \<Rightarrow> int \<Rightarrow> transaction list \<Rightarrow> user \<Rightarrow> py_error + (string \<rightharpoonup> trend_entry)" where
  "get_monthly_trend now months db current_user =
     (if \<not> (1 \<le> months \<and> months \<le> 24) then Inl (HTTPException 422)
      else (let end_date = now
            in case dt_sub_days end_date (months * 30) of
                 Inl e \<Rightarrow> Inl e
               | Inr start_date \<Rightarrow>
                   Inr (trend_loop (monthly_data (trend_window start_date db current_user))
                          Map.empty)))"

text \<open>
  Reading the two sides of an entry, \<open>0\<close> for a missing key; used to state what the
  loop stores.
\<close>

definition entry_income :: "(string \<rightharpoonup> trend_entry) \<Rightarrow> string \<Rightarrow> real" where
  "entry_income trend_data key = (case trend_data key of None \<Rightarrow> 0 | Some e \<Rightarrow> income e)"

definition entry_expenses :: "(string \<rightharpoonup> trend_entry) \<Rightarrow> string \<Rightarrow> real" where
  "entry_expenses trend_data key = (case trend_data key of None \<Rightarrow> 0 | Some e \<Rightarrow> expenses e)"

section \<open>Calendar arithmetic\<close>

lemma month_cases:
  "1 \<le> (m::int) \<Longrightarrow> m \<le> 12 \<Longrightarrow>
   m = 1 \<or> m = 2 \<or> m = 3 \<or> m = 4 \<or> m = 5 \<or> m = 6 \<or> m = 7 \<or> m = 8 \<or> m = 9 \<or> m = 10 \<or> m = 11 \<or> m = 12"
  by arith

lemma days_in_month_bounds:
  assumes "1 \<le> m" "m \<le> 12"
  shows "28 \<le> days_in_month y m \<and> days_in_month y m \<le> 31"
  using month_cases [OF assms] by (auto simp: days_in_month_def mdays_def)

lemma monthrange_ndays_eq:
  assumes "1 \<le> m" "m \<le> 12"
  shows "monthrange_ndays y m = Inr (days_in_month y m)"
  using month_cases [OF assms] by (auto simp: monthrange_ndays_def days_in_month_def mdays_def)

lemma days_in_month_january: "days_in_month y 1 = 31"
  by (simp add: days_in_month_def mdays_def)

lemma dt_le_midnight:
  assumes "valid_datetime now"
  shows "dt_le (midnight (dt_year now) (dt_month now) c) now \<longleftrightarrow> c \<le> dt_day now"
  using assms by (auto simp: dt_le_def dt_tuple_def midnight_def valid_datetime_def)

lemma mk_datetime_ok:
  assumes "1 \<le> y" "y \<le> 9999" "1 \<le> m" "m \<le> 12" "1 \<le> d"
  shows "mk_datetime y m (min d (days_in_month y m)) = Inr (midnight y m (min d (days_in_month y m)))"
  using assms days_in_month_bounds [of m y] by (simp add: mk_datetime_def)

lemma div_pred:
  assumes "0 < (k::int)"
  shows "y div k = (y - 1) div k + (if y mod k = 0 then 1 else 0)"
proof (cases "y mod k = 0")
  case True
  then obtain q where y: "y = k * q" by (auto simp: mod_eq_0_iff_dvd)
  have "y - 1 = k * (q - 1) + (k - 1)" using y by (simp add: algebra_simps)
  moreover have "0 \<le> k - 1" "k - 1 < k" using assms by auto
  ultimately have "(y - 1) div k = q - 1" by (rule int_div_pos_eq)
  moreover have "y div k = q" using y assms by simp
  ultimately show ?thesis using True by simp
next
  case False
  define q r where "q = y div k" and "r = y mod k"
  have y: "y = k * q + r" by (simp add: q_def r_def)
  have "0 \<le> r" "r < k" using assms by (simp_all add: r_def)
  then have r: "0 < r" "r < k" using False by (simp_all add: r_def)
  have "y - 1 = k * q + (r - 1)" using y by simp
  moreover have "0 \<le> r - 1" "r - 1 < k" using r by auto
  ultimately have "(y - 1) div k = q" by (rule int_div_pos_eq)
  then show ?thesis using False by (simp add: q_def)
qed

lemma days_before_year_next:
  "days_before_year (y + 1) = days_before_year y + 365 + (if isleap y then 1 else 0)"
proof -
  have d4: "y div 4 = (y - 1) div 4 + (if y mod 4 = 0 then 1 else 0)"
    by (rule div_pred) simp
  have d100: "y div 100 = (y - 1) div 100 + (if y mod 100 = 0 then 1 else 0)"
    by (rule div_pred) simp
  have d400: "y div 400 = (y - 1) div 400 + (if y mod 400 = 0 then 1 else 0)"
    by (rule div_pred) simp
  have a: "y mod 100 = 0 \<Longrightarrow> y mod 4 = 0"
  proof -
    assume "y mod 100 = 0"
    then have "100 dvd y" by (simp add: mod_eq_0_iff_dvd)
    moreover have "(4::int) dvd 100" by simp
    ultimately have "4 dvd y" by (rule dvd_trans [rotated])
    then show ?thesis by (simp add: mod_eq_0_iff_dvd)
  qed
  have b: "y mod 400 = 0 \<Longrightarrow> y mod 100 = 0"
  proof -
    assume "y mod 400 = 0"
    then have "400 dvd y" by (simp add: mod_eq_0_iff_dvd)
    moreover have "(100::int) dvd 400" by simp
    ultimately have "100 dvd y" by (rule dvd_trans [rotated])
    then show ?thesis by (simp add: mod_eq_0_iff_dvd)
  qed
  define p4 p100 p400 where "p4 = (y - 1) div 4" and "p100 = (y - 1) div 100"
    and "p400 = (y - 1) div 400"
  have lhs: "days_before_year (y + 1) = y * 365 + y div 4 - y div 100 + y div 400"
    by (simp add: days_before_year_def Let_def)
  have rhs: "days_before_year y = (y - 1) * 365 + p4 - p100 + p400"
    by (simp add: days_before_year_def Let_def p4_def p100_def p400_def)
  have e4: "y div 4 = p4 + (if y mod 4 = 0 then 1 else 0)"
    using d4 by (simp add: p4_def)
  have e100: "y div 100 = p100 + (if y mod 100 = 0 then 1 else 0)"
    using d100 by (simp add: p100_def)
  have e400: "y div 400 = p400 + (if y mod 400 = 0 then 1 else 0)"
    using d400 by (simp add: p400_def)
  show ?thesis
  proof (cases "y mod 4 = 0")
    case False
    then have "y mod 100 \<noteq> 0 \<and> y mod 400 \<noteq> 0" using a b by auto
    with False show ?thesis
      unfolding lhs rhs e4 e100 e400 isleap_def by simp
  next
    case m4: True
    show ?thesis
    proof (cases "y mod 100 = 0")
      case False
      then have "y mod 400 \<noteq> 0" using b by auto
      with False m4 show ?thesis
        unfolding lhs rhs e4 e100 e400 isleap_def by simp
    next
      case True
      with m4 show ?thesis
        unfolding lhs rhs e4 e100 e400 isleap_def by (cases "y mod 400 = 0") simp_all
    qed
  qed
qed

lemma days_before_month_next:
  assumes "1 \<le> m" "m < 12"
  shows "days_before_month y (m + 1) = days_before_month y m + days_in_month y m"
proof -
  have "m = 1 \<or> m = 2 \<or> m = 3 \<or> m = 4 \<or> m = 5 \<or> m = 6 \<or> m = 7 \<or> m = 8 \<or> m = 9 \<or> m = 10 \<or> m = 11"
    using assms by arith
  then show ?thesis
    by (elim disjE) (simp_all add: days_before_month_def days_in_month_def mdays_def DAYS_BEFORE_MONTH_def)
qed

lemma days_before_month_december: "days_before_month y 12 = 334 + (if isleap y then 1 else 0)"
  by (simp add: days_before_month_def DAYS_BEFORE_MONTH_def)

lemma days_before_month_january: "days_before_month y 1 = 0"
  by (simp add: days_before_month_def DAYS_BEFORE_MONTH_def)

section \<open>The next due date\<close>

lemma next_due_try_future:
  assumes "valid_datetime now" "1 \<le> due_day"
    and "dt_day now < min due_day (days_in_month (dt_year now) (dt_month now))"
  shows "next_due_try now due_day (days_in_month (dt_year now) (dt_month now)) =
         Inr (midnight (dt_year now) (dt_month now)
                (min due_day (days_in_month (dt_year now) (dt_month now))))"
proof -
  have v: "1 \<le> dt_year now" "dt_year now \<le> 9999" "1 \<le> dt_month now" "dt_month now \<le> 12"
    using assms(1) by (simp_all add: valid_datetime_def)
  have mk: "mk_datetime (dt_year now) (dt_month now)
              (min due_day (days_in_month (dt_year now) (dt_month now))) =
            Inr (midnight (dt_year now) (dt_month now)
              (min due_day (days_in_month (dt_year now) (dt_month now))))"
    using v assms(2) by (rule mk_datetime_ok)
  have "\<not> dt_le (midnight (dt_year now) (dt_month now)
              (min due_day (days_in_month (dt_year now) (dt_month now)))) now"
    using assms(3) by (simp only: dt_le_midnight [OF assms(1)] not_le)
  then show ?thesis
    by (simp add: next_due_try_def Let_def mk)
qed

lemma next_due_try_passed:
  assumes "valid_datetime now" "1 \<le> due_day"
    and "min due_day (days_in_month (dt_year now) (dt_month now)) \<le> dt_day now"
  shows "next_due_try now due_day (days_in_month (dt_year now) (dt_month now)) =
         (if dt_month now = 12 then
            (if dt_year now = 9999 then Inl (10000, 1, 31)
             else Inr (midnight (dt_year now + 1) 1 (min due_day (days_in_month (dt_year now + 1) 1))))
          else Inr (midnight (dt_year now) (dt_month now + 1)
                 (min due_day (days_in_month (dt_year now) (dt_month now + 1)))))"
proof -
  have v: "1 \<le> dt_year now" "dt_year now \<le> 9999" "1 \<le> dt_month now" "dt_month now \<le> 12"
    using assms(1) by (simp_all add: valid_datetime_def)
  have mk: "mk_datetime (dt_year now) (dt_month now)
              (min due_day (days_in_month (dt_year now) (dt_month now))) =
            Inr (midnight (dt_year now) (dt_month now)
              (min due_day (days_in_month (dt_year now) (dt_month now))))"
    using v assms(2) by (rule mk_datetime_ok)
  have le: "dt_le (midnight (dt_year now) (dt_month now)
              (min due_day (days_in_month (dt_year now) (dt_month now)))) now"
    using assms(3) by (simp only: dt_le_midnight [OF assms(1)])
  show ?thesis
  proof (cases "dt_month now = 12")
    case True
    have mr: "monthrange_ndays (dt_year now + 1) 1 = Inr (days_in_month (dt_year now + 1) 1)"
      by (rule monthrange_ndays_eq) simp_all
    show ?thesis
    proof (cases "dt_year now = 9999")
      case y: True
      have "mk_datetime 10000 1 (min due_day 31) = Inl ValueError"
        by (simp add: mk_datetime_def)
      then show ?thesis using True y mr mk le
        by (simp add: next_due_try_def Let_def days_in_month_january)
    next
      case False
      have "mk_datetime (dt_year now + 1) 1 (min due_day (days_in_month (dt_year now + 1) 1)) =
            Inr (midnight (dt_year now + 1) 1 (min due_day (days_in_month (dt_year now + 1) 1)))"
        using v False assms(2) by (intro mk_datetime_ok) simp_all
      then show ?thesis using True False mr mk le
        by (simp add: next_due_try_def Let_def)
    qed
  next
    case False
    then have m: "1 \<le> dt_month now + 1" "dt_month now + 1 \<le> 12" using v by simp_all
    have mr: "monthrange_ndays (dt_year now) (dt_month now + 1) =
              Inr (days_in_month (dt_year now) (dt_month now + 1))"
      using m by (rule monthrange_ndays_eq)
    have "mk_datetime (dt_year now) (dt_month now + 1)
            (min due_day (days_in_month (dt_year now) (dt_month now + 1))) =
          Inr (midnight (dt_year now) (dt_month now + 1)
            (min due_day (days_in_month (dt_year now) (dt_month now + 1))))"
      using v(1,2) m assms(2) by (rule mk_datetime_ok)
    then show ?thesis using False mr mk le
      by (simp add: next_due_try_def Let_def)
  qed
qed

lemma calculate_next_due_date_cases:
  assumes "valid_datetime now" "1 \<le> due_day"
  shows "calculate_next_due_date now due_day =
     (if dt_day now < min due_day (days_in_month (dt_year now) (dt_month now)) then
        Inr (midnight (dt_year now) (dt_month now)
               (min due_day (days_in_month (dt_year now) (dt_month now))))
      else if dt_month now = 12 then
        (if dt_year now = 9999 then Inl ValueError
         else Inr (midnight (dt_year now + 1) 1 (min due_day (days_in_month (dt_year now + 1) 1))))
      else Inr (midnight (dt_year now) (dt_month now + 1)
             (min due_day (days_in_month (dt_year now) (dt_month now + 1)))))"
proof -
  have v: "1 \<le> dt_month now" "dt_month now \<le> 12"
    using assms(1) by (simp_all add: valid_datetime_def)
  have mr: "monthrange_ndays (dt_year now) (dt_month now) =
            Inr (days_in_month (dt_year now) (dt_month now))"
    using v by (rule monthrange_ndays_eq)
  have h: "mk_datetime 10000 1 31 = Inl ValueError"
    by (simp add: mk_datetime_def)
  show ?thesis
  proof (cases "dt_day now < min due_day (days_in_month (dt_year now) (dt_month now))")
    case True
    have "calculate_next_due_date now due_day =
          Inr (midnight (dt_year now) (dt_month now)
               (min due_day (days_in_month (dt_year now) (dt_month now))))"
      by (simp add: calculate_next_due_date_def mr next_due_try_future [OF assms True])
    then show ?thesis by (simp only: True if_True)
  next
    case False
    then have p: "min due_day (days_in_month (dt_year now) (dt_month now)) \<le> dt_day now"
      by (simp only: not_less)
    have "calculate_next_due_date now due_day =
          (case (if dt_month now = 12 then
            (if dt_year now = 9999 then Inl (10000, 1, 31)
             else Inr (midnight (dt_year now + 1) 1 (min due_day (days_in_month (dt_year now + 1) 1))))
          else Inr (midnight (dt_year now) (dt_month now + 1)
                 (min due_day (days_in_month (dt_year now) (dt_month now + 1)))))
           of Inr next_due \<Rightarrow> Inr next_due
           | Inl (year, month, max_day') \<Rightarrow> mk_datetime year month max_day')"
      by (simp only: calculate_next_due_date_def mr next_due_try_passed [OF assms p] sum.case)
    then show ?thesis
      apply (simp only: False if_False)
      apply (simp add: h)
      done
  qed
qed

lemma dt_less_imp_le: "dt_less a b \<Longrightarrow> dt_le a b"
  by (auto simp: dt_less_def dt_le_def dt_tuple_def)

lemma dt_less_midnight_same_month:
  assumes "valid_datetime now" "dt_day now < c"
  shows "dt_less now (midnight (dt_year now) (dt_month now) c)"
  using assms by (simp add: dt_less_def dt_le_midnight)

lemma dt_less_midnight_next_month:
  "dt_less now (midnight (dt_year now) (dt_month now + 1) c)"
  by (simp add: dt_less_def dt_le_def dt_tuple_def midnight_def)

lemma dt_less_midnight_next_year:
  "dt_less now (midnight (dt_year now + 1) m c)"
  by (simp add: dt_less_def dt_le_def dt_tuple_def midnight_def)

lemma toordinal_same_month:
  "toordinal (midnight (dt_year now) (dt_month now) c) - toordinal now = c - dt_day now"
  by (simp add: toordinal_def ymd2ord_def midnight_def)

lemma toordinal_next_month:
  assumes "1 \<le> dt_month now" "dt_month now < 12"
  shows "toordinal (midnight (dt_year now) (dt_month now + 1) c) - toordinal now =
         days_in_month (dt_year now) (dt_month now) - dt_day now + c"
  using days_before_month_next [OF assms, of "dt_year now"]
  by (simp add: toordinal_def ymd2ord_def midnight_def)

lemma toordinal_next_year:
  assumes "dt_month now = 12"
  shows "toordinal (midnight (dt_year now + 1) 1 c) - toordinal now = 31 - dt_day now + c"
  using assms days_before_year_next [of "dt_year now"]
  by (simp add: toordinal_def ymd2ord_def midnight_def days_before_month_december
        days_before_month_january)

lemma next_due_day_clamped:
  assumes "valid_datetime now" "1 \<le> due_day"
    and "calculate_next_due_date now due_day = Inr r"
  shows "dt_day r = min due_day (days_in_month (dt_year r) (dt_month r))"
  using assms(3) unfolding calculate_next_due_date_cases [OF assms(1,2)]
  by (auto simp: midnight_def split: if_splits)

lemma calculate_next_due_date_future:
  assumes "valid_datetime now" "1 \<le> due_day"
    and "dt_day now < min due_day (days_in_month (dt_year now) (dt_month now))"
  shows "calculate_next_due_date now due_day =
         Inr (midnight (dt_year now) (dt_month now)
               (min due_day (days_in_month (dt_year now) (dt_month now))))"
  unfolding calculate_next_due_date_cases [OF assms(1,2)] by (simp only: assms(3) if_True)

lemma calculate_next_due_date_passed:
  assumes "valid_datetime now" "1 \<le> due_day"
    and "min due_day (days_in_month (dt_year now) (dt_month now)) \<le> dt_day now"
  shows "calculate_next_due_date now due_day =
     (if dt_month now = 12 then
        (if dt_year now = 9999 then Inl ValueError
         else Inr (midnight (dt_year now + 1) 1 (min due_day (days_in_month (dt_year now + 1) 1))))
      else Inr (midnight (dt_year now) (dt_month now + 1)
             (min due_day (days_in_month (dt_year now) (dt_month now + 1)))))"
proof -
  have "\<not> dt_day now < min due_day (days_in_month (dt_year now) (dt_month now))"
    using assms(3) by (simp only: not_less)
  then show ?thesis
    unfolding calculate_next_due_date_cases [OF assms(1,2)] by (simp only: if_False)
qed

text \<open>
  Claim C1, as amended. For a due day in 1..31 and a valid clock reading \<open>now\<close>,
  \<open>calculate_next_due_date\<close> clamps the due day to the length of \<open>now\<close>'s month and
  builds the candidate (midnight of that day). A candidate after \<open>now\<close> is returned.
  A candidate \<open>\<le> now\<close> moves to the next month, to January of the next year from
  December, with the due day clamped again to the new month's length; from December 9999
  there is no next year and \<open>ValueError\<close> is raised. The day of a returned date is the
  due day clamped to the length of the returned month, so a due day 31 gives day 30
  when the returned month has 30 days; a December rollover before year 9999 returns
  month 1 of the next year.
\<close>

theorem calculate_next_due_date_clamp_then_compare:
  assumes "valid_datetime now" "1 \<le> due_day" "due_day \<le> 31"
  shows "calculate_next_due_date now due_day =
     (let year = dt_year now; month = dt_month now;
          candidate = midnight year month (min due_day (days_in_month year month))
      in if \<not> dt_le candidate now then Inr candidate
         else if month = 12 then
           (if year = 9999 then Inl ValueError
            else Inr (midnight (year + 1) 1 (min due_day (days_in_month (year + 1) 1))))
         else Inr (midnight year (month + 1) (min due_day (days_in_month year (month + 1)))))
    \<and> (\<forall>r. calculate_next_due_date now due_day = Inr r \<longrightarrow>
           dt_day r = min due_day (days_in_month (dt_year r) (dt_month r)) \<and>
           (due_day = 31 \<and> days_in_month (dt_year r) (dt_month r) = 30 \<longrightarrow> dt_day r = 30))
    \<and> (dt_month now = 12 \<and> dt_year now < 9999 \<and>
         dt_le (midnight (dt_year now) 12 (min due_day (days_in_month (dt_year now) 12))) now \<longrightarrow>
         (\<exists>r. calculate_next_due_date now due_day = Inr r \<and>
              dt_year r = dt_year now + 1 \<and> dt_month r = 1))"
proof (intro conjI allI impI)
  show "calculate_next_due_date now due_day =
     (let year = dt_year now; month = dt_month now;
          candidate = midnight year month (min due_day (days_in_month year month))
      in if \<not> dt_le candidate now then Inr candidate
         else if month = 12 then
           (if year = 9999 then Inl ValueError
            else Inr (midnight (year + 1) 1 (min due_day (days_in_month (year + 1) 1))))
         else Inr (midnight year (month + 1) (min due_day (days_in_month year (month + 1)))))"
    unfolding calculate_next_due_date_cases [OF assms(1,2)] Let_def
      dt_le_midnight [OF assms(1)] not_le ..
next
  fix r assume r: "calculate_next_due_date now due_day = Inr r"
  show c: "dt_day r = min due_day (days_in_month (dt_year r) (dt_month r))"
    using assms(1,2) r by (rule next_due_day_clamped)
  assume "due_day = 31 \<and> days_in_month (dt_year r) (dt_month r) = 30"
  then show "dt_day r = 30" using c by simp
next
  assume a: "dt_month now = 12 \<and> dt_year now < 9999 \<and>
         dt_le (midnight (dt_year now) 12 (min due_day (days_in_month (dt_year now) 12))) now"
  then have "dt_le (midnight (dt_year now) (dt_month now)
                 (min due_day (days_in_month (dt_year now) (dt_month now)))) now"
    by simp
  then have "min due_day (days_in_month (dt_year now) (dt_month now)) \<le> dt_day now"
    by (simp only: dt_le_midnight [OF assms(1)])
  then have "calculate_next_due_date now due_day =
     (if dt_month now = 12 then
        (if dt_year now = 9999 then Inl ValueError
         else Inr (midnight (dt_year now + 1) 1 (min due_day (days_in_month (dt_year now + 1) 1))))
      else Inr (midnight (dt_year now) (dt_month now + 1)
             (min due_day (days_in_month (dt_year now) (dt_month now + 1)))))"
    by (rule calculate_next_due_date_passed [OF assms(1,2)])
  then have "calculate_next_due_date now due_day =
      Inr (midnight (dt_year now + 1) 1 (min due_day (days_in_month (dt_year now + 1) 1)))"
    using a by simp
  then show "\<exists>r. calculate_next_due_date now due_day = Inr r \<and>
              dt_year r = dt_year now + 1 \<and> dt_month r = 1"
    by (simp add: midnight_def)
qed

theorem calculate_next_due_date_clamp_then_compare_witness:
  "valid_datetime \<lparr>dt_year = 2024, dt_month = 4, dt_day = 10, dt_hour = 9, dt_minute = 30,
              dt_second = 0, dt_microsecond = 0\<rparr> \<and> (1::int) \<le> 31 \<and> (31::int) \<le> 31 \<and>
   calculate_next_due_date \<lparr>dt_year = 2024, dt_month = 4, dt_day = 10, dt_hour = 9, dt_minute = 30,
              dt_second = 0, dt_microsecond = 0\<rparr> 31 = Inr (midnight 2024 4 30) \<and>
   days_in_month 2024 4 = 30 \<and> dt_day (midnight 2024 4 30) = 30"
proof -
  let ?now = "\<lparr>dt_year = 2024, dt_month = 4, dt_day = 10, dt_hour = 9, dt_minute = 30,
              dt_second = 0, dt_microsecond = 0\<rparr>"
  have d: "days_in_month 2024 4 = 30"
    by (simp add: days_in_month_def mdays_def)
  have v: "valid_datetime ?now"
    by (simp add: valid_datetime_def d)
  have le: "\<not> dt_le (midnight 2024 4 30) ?now"
    by (simp add: dt_le_def dt_tuple_def midnight_def)
  have "calculate_next_due_date ?now 31 = Inr (midnight 2024 4 30)"
    using calculate_next_due_date_clamp_then_compare [of ?now 31, OF v] le
    by (simp add: d)
  then show ?thesis using v d by (simp add: midnight_def)
qed

text \<open>
  The claim as written fails at two inputs. On the 30th of a 30-day month the clamped
  candidate is that same day, which counts as passed, so a due day 31 returns the 31st
  of the following month, not day 30. In December 9999 a passed candidate raises
  \<open>ValueError\<close> instead of returning a date.
\<close>

theorem calculate_next_due_date_counterexample:
  "days_in_month 2024 4 = 30 \<and>
   calculate_next_due_date \<lparr>dt_year = 2024, dt_month = 4, dt_day = 30, dt_hour = 10, dt_minute = 0,
              dt_second = 0, dt_microsecond = 0\<rparr> 31 = Inr (midnight 2024 5 31) \<and>
   calculate_next_due_date \<lparr>dt_year = 9999, dt_month = 12, dt_day = 20, dt_hour = 10, dt_minute = 0,
              dt_second = 0, dt_microsecond = 0\<rparr> 15 = Inl ValueError"
  by (simp add: calculate_next_due_date_def next_due_try_def monthrange_ndays_def
        mk_datetime_def days_in_month_def mdays_def isleap_def dt_le_def dt_tuple_def
        midnight_def Let_def)

lemma calculate_next_due_date_after_now:
  assumes "valid_datetime now" "1 \<le> due_day"
    and "calculate_next_due_date now due_day = Inr r"
  shows "dt_less now r"
proof (cases "dt_day now < min due_day (days_in_month (dt_year now) (dt_month now))")
  case True
  have "r = midnight (dt_year now) (dt_month now)
               (min due_day (days_in_month (dt_year now) (dt_month now)))"
    using assms(3) calculate_next_due_date_future [OF assms(1,2) True] by simp
  then show ?thesis using dt_less_midnight_same_month [OF assms(1) True] by simp
next
  case False
  then have p: "min due_day (days_in_month (dt_year now) (dt_month now)) \<le> dt_day now"
    by (simp only: not_less)
  show ?thesis
    using assms(3) unfolding calculate_next_due_date_passed [OF assms(1,2) p]
    by (auto split: if_splits simp: dt_less_midnight_next_month dt_less_midnight_next_year)
qed

lemma calculate_next_due_date_raises:
  assumes "valid_datetime now" "1 \<le> due_day"
    and "calculate_next_due_date now due_day = Inl e"
  shows "dt_year now = 9999 \<and> dt_month now = 12 \<and> e = ValueError \<and>
         min due_day (days_in_month (dt_year now) (dt_month now)) \<le> dt_day now"
proof (cases "dt_day now < min due_day (days_in_month (dt_year now) (dt_month now))")
  case True
  show ?thesis
    using assms(3) calculate_next_due_date_future [OF assms(1,2) True] by simp
next
  case False
  then have p: "min due_day (days_in_month (dt_year now) (dt_month now)) \<le> dt_day now"
    by (simp only: not_less)
  have "dt_year now = 9999 \<and> dt_month now = 12 \<and> e = ValueError"
    using assms(3) unfolding calculate_next_due_date_passed [OF assms(1,2) p]
    by (auto split: if_splits)
  then show ?thesis using p by simp
qed

text \<open>
  Claim C2. For a due day in 1..31 and a valid clock reading \<open>now\<close>, a date returned
  by \<open>calculate_next_due_date\<close> is never before \<open>now\<close>: it is strictly after
  \<open>now\<close>, and it is the first candidate whenever that candidate is still in the
  future. The only input on which no date is returned (the constructor raises) lies in
  December 9999.
\<close>

theorem next_due_never_before_now:
  assumes "valid_datetime now" "1 \<le> due_day" "due_day \<le> 31"
  shows "case calculate_next_due_date now due_day of
           Inr next_due \<Rightarrow>
             \<not> dt_less next_due now \<and> dt_less now next_due \<and>
             (dt_less now (midnight (dt_year now) (dt_month now)
                 (min due_day (days_in_month (dt_year now) (dt_month now)))) \<longrightarrow>
              next_due = midnight (dt_year now) (dt_month now)
                 (min due_day (days_in_month (dt_year now) (dt_month now))))
         | Inl e \<Rightarrow> dt_year now = 9999 \<and> dt_month now = 12"
proof (cases "calculate_next_due_date now due_day")
  case (Inl e)
  then show ?thesis
    using calculate_next_due_date_raises [OF assms(1,2) Inl] by simp
next
  case (Inr r)
  have a: "dt_less now r"
    using assms(1,2) Inr by (rule calculate_next_due_date_after_now)
  then have b: "\<not> dt_less r now"
    using dt_less_imp_le [OF a] by (simp add: dt_less_def)
  have c: "r = midnight (dt_year now) (dt_month now)
                 (min due_day (days_in_month (dt_year now) (dt_month now)))"
    if "dt_less now (midnight (dt_year now) (dt_month now)
                 (min due_day (days_in_month (dt_year now) (dt_month now))))"
  proof -
    from that have "dt_day now < min due_day (days_in_month (dt_year now) (dt_month now))"
      by (simp only: dt_less_def dt_le_midnight [OF assms(1)] not_le)
    from calculate_next_due_date_future [OF assms(1,2) this] Inr show ?thesis by simp
  qed
  show ?thesis using a b c by (simp add: Inr)
qed

theorem next_due_never_before_now_witness:
  "valid_datetime \<lparr>dt_year = 2024, dt_month = 2, dt_day = 20, dt_hour = 8, dt_minute = 15,
              dt_second = 0, dt_microsecond = 0\<rparr> \<and> (1::int) \<le> 31 \<and> (31::int) \<le> 31 \<and>
   calculate_next_due_date \<lparr>dt_year = 2024, dt_month = 2, dt_day = 20, dt_hour = 8, dt_minute = 15,
              dt_second = 0, dt_microsecond = 0\<rparr> 31 = Inr (midnight 2024 2 29) \<and>
   dt_less \<lparr>dt_year = 2024, dt_month = 2, dt_day = 20, dt_hour = 8, dt_minute = 15,
              dt_second = 0, dt_microsecond = 0\<rparr> (midnight 2024 2 29)"
proof -
  let ?now = "\<lparr>dt_year = 2024, dt_month = 2, dt_day = 20, dt_hour = 8, dt_minute = 15,
              dt_second = 0, dt_microsecond = 0\<rparr>"
  have d: "days_in_month 2024 2 = 29"
    by (simp add: days_in_month_def mdays_def isleap_def)
  have v: "valid_datetime ?now"
    by (simp add: valid_datetime_def d)
  have r: "calculate_next_due_date ?now 31 = Inr (midnight 2024 2 29)"
    by (simp add: calculate_next_due_date_def next_due_try_def monthrange_ndays_def
        mk_datetime_def days_in_month_def mdays_def isleap_def dt_le_def dt_tuple_def
        midnight_def Let_def)
  show ?thesis
    using next_due_never_before_now [of ?now 31, OF v] v r by simp
qed

lemma days_until_due_positive:
  assumes "valid_datetime now" "1 \<le> due_day"
    and "calculate_next_due_date now due_day = Inr r"
  shows "1 \<le> toordinal r - toordinal now"
proof -
  have v: "1 \<le> dt_month now" "dt_month now \<le> 12" "1 \<le> dt_day now"
      "dt_day now \<le> days_in_month (dt_year now) (dt_month now)"
    using assms(1) by (simp_all add: valid_datetime_def)
  show ?thesis
  proof (cases "dt_day now < min due_day (days_in_month (dt_year now) (dt_month now))")
    case True
    have "r = midnight (dt_year now) (dt_month now)
               (min due_day (days_in_month (dt_year now) (dt_month now)))"
      using assms(3) calculate_next_due_date_future [OF assms(1,2) True] by simp
    then have "toordinal r - toordinal now =
          min due_day (days_in_month (dt_year now) (dt_month now)) - dt_day now"
      by (simp only: toordinal_same_month)
    then show ?thesis using True by linarith
  next
    case False
    then have p: "min due_day (days_in_month (dt_year now) (dt_month now)) \<le> dt_day now"
      by (simp only: not_less)
    note c = calculate_next_due_date_passed [OF assms(1,2) p]
    show ?thesis
    proof (cases "dt_month now = 12")
      case True
      then have "r = midnight (dt_year now + 1) 1 (min due_day (days_in_month (dt_year now + 1) 1))"
        using assms(3) c by (simp split: if_splits)
      moreover have "dt_day now \<le> 31"
        using v(4) days_in_month_bounds [OF v(1,2), of "dt_year now"] by simp
      ultimately show ?thesis
        using assms(2) by (simp add: toordinal_next_year [OF True] days_in_month_january)
    next
      case False
      then have m: "dt_month now < 12" using v by simp
      have "r = midnight (dt_year now) (dt_month now + 1)
             (min due_day (days_in_month (dt_year now) (dt_month now + 1)))"
        using assms(3) c False by simp
      moreover have "1 \<le> min due_day (days_in_month (dt_year now) (dt_month now + 1))"
        using assms(2) days_in_month_bounds [of "dt_month now + 1" "dt_year now"] v m by simp
      ultimately have "toordinal r - toordinal now =
           days_in_month (dt_year now) (dt_month now) - dt_day now +
           min due_day (days_in_month (dt_year now) (dt_month now + 1))"
        and "1 \<le> min due_day (days_in_month (dt_year now) (dt_month now + 1))"
        by (simp_all only: toordinal_next_month [OF v(1) m])
      then show ?thesis
        using v(4) by linarith
    qed
  qed
qed

lemma payment_row_ok:
  assumes "valid_datetime now" "1 \<le> fp_due_day payment"
    and "payment_with_status now now payment = Inr row"
  shows "1 \<le> fps_days_until_due row \<and>
         (fp_is_active (fps_payment row) \<longrightarrow>
            fps_status row \<noteq> ''due'' \<and> fps_status row \<noteq> ''overdue'')"
proof (cases "calculate_next_due_date now (fp_due_day payment)")
  case (Inl e)
  then show ?thesis using assms(3) by (simp add: payment_with_status_def)
next
  case (Inr r)
  have "1 \<le> toordinal r - toordinal now"
    using assms(1,2) Inr by (rule days_until_due_positive)
  then show ?thesis
    using assms(3)
    by (auto simp: payment_with_status_def Inr Let_def get_payment_status_def split: if_splits)
qed

lemma fixed_payments_loop_rows_ok:
  assumes "valid_datetime now" "\<forall>p \<in> set ps. 1 \<le> fp_due_day p"
    and "fixed_payments_loop (\<lambda>k. now) k ps = Inr rows"
  shows "\<forall>row \<in> set rows. 1 \<le> fps_days_until_due row \<and>
         (fp_is_active (fps_payment row) \<longrightarrow>
            fps_status row \<noteq> ''due'' \<and> fps_status row \<noteq> ''overdue'')"
  using assms(2,3)
proof (induction ps arbitrary: k rows)
  case Nil
  then show ?case by simp
next
  case (Cons p ps)
  from Cons.prems(2) obtain row rest where
    r: "payment_with_status now now p = Inr row"
    and l: "fixed_payments_loop (\<lambda>k. now) (Suc (Suc k)) ps = Inr rest"
    and rows: "rows = row # rest"
    by (auto split: sum.splits)
  have "1 \<le> fp_due_day p" using Cons.prems(1) by simp
  note payment_row_ok [OF assms(1) this r]
  moreover have "\<forall>row \<in> set rest. 1 \<le> fps_days_until_due row \<and>
         (fp_is_active (fps_payment row) \<longrightarrow>
            fps_status row \<noteq> ''due'' \<and> fps_status row \<noteq> ''overdue'')"
    using Cons.prems(1) l by (intro Cons.IH) simp_all
  ultimately show ?case unfolding rows by simp
qed

text \<open>
  Claim C8. With one clock reading \<open>now\<close> used for both steps and a due day in
  1..31, every row the pipeline produces has \<open>days_until_due\<close> equal to the ordinal
  of \<open>next_due\<close> minus the ordinal of \<open>now\<close>, and that number is at least 1; so
  the status of an active payment is neither \<open>due\<close> nor \<open>overdue\<close>. For an active
  payment these two statuses are returned exactly for a day count \<open>\<le> 0\<close>. The same
  holds for every row of \<open>get_fixed_payments\<close> when all clock readings of the request
  are \<open>now\<close>. The pipeline produces no row only when the date computation raises, in
  December 9999.
\<close>

theorem pipeline_days_until_due_at_least_one:
  assumes "valid_datetime now" "1 \<le> fp_due_day payment" "fp_due_day payment \<le> 31"
  shows "(case payment_with_status now now payment of
            Inr row \<Rightarrow>
              fps_days_until_due row = toordinal (fps_next_due row) - toordinal now \<and>
              1 \<le> fps_days_until_due row \<and>
              (fp_is_active payment \<longrightarrow>
                 fps_status row \<noteq> ''due'' \<and> fps_status row \<noteq> ''overdue'')
          | Inl e \<Rightarrow> dt_year now = 9999 \<and> dt_month now = 12)
       \<and> (\<forall>n. fp_is_active payment \<longrightarrow>
             (get_payment_status payment n = ''due'' \<or>
              get_payment_status payment n = ''overdue'') = (n \<le> 0))
       \<and> (\<forall>db user_id rows.
             (\<forall>p \<in> set db. 1 \<le> fp_due_day p \<and> fp_due_day p \<le> 31) \<and>
             get_fixed_payments (\<lambda>k. now) db user_id = Inr rows \<longrightarrow>
             (\<forall>row \<in> set rows. 1 \<le> fps_days_until_due row \<and>
                (fp_is_active (fps_payment row) \<longrightarrow>
                   fps_status row \<noteq> ''due'' \<and> fps_status row \<noteq> ''overdue'')))"
proof (intro conjI allI impI)
  show "case payment_with_status now now payment of
            Inr row \<Rightarrow>
              fps_days_until_due row = toordinal (fps_next_due row) - toordinal now \<and>
              1 \<le> fps_days_until_due row \<and>
              (fp_is_active payment \<longrightarrow>
                 fps_status row \<noteq> ''due'' \<and> fps_status row \<noteq> ''overdue'')
          | Inl e \<Rightarrow> dt_year now = 9999 \<and> dt_month now = 12"
  proof (cases "calculate_next_due_date now (fp_due_day payment)")
    case (Inl e)
    then show ?thesis
      using calculate_next_due_date_raises [OF assms(1,2) Inl]
      by (simp add: payment_with_status_def)
  next
    case (Inr r)
    have "1 \<le> toordinal r - toordinal now"
      using assms(1,2) Inr by (rule days_until_due_positive)
    then show ?thesis
      by (simp add: payment_with_status_def Inr Let_def get_payment_status_def)
  qed
next
  fix n assume "fp_is_active payment"
  then show "(get_payment_status payment n = ''due'' \<or>
              get_payment_status payment n = ''overdue'') = (n \<le> 0)"
    by (auto simp: get_payment_status_def)
next
  fix db :: "fixed_payment list" and user_id rows
  assume a: "(\<forall>p \<in> set db. 1 \<le> fp_due_day p \<and> fp_due_day p \<le> 31) \<and>
             get_fixed_payments (\<lambda>k. now) db user_id = Inr rows"
  then have "\<forall>p \<in> set (filter (\<lambda>p. fp_user_id p = user_id) db). 1 \<le> fp_due_day p"
    by simp
  moreover have "fixed_payments_loop (\<lambda>k. now) 0 (filter (\<lambda>p. fp_user_id p = user_id) db) = Inr rows"
    using a by (simp add: get_fixed_payments_def)
  ultimately show "\<forall>row \<in> set rows. 1 \<le> fps_days_until_due row \<and>
                (fp_is_active (fps_payment row) \<longrightarrow>
                   fps_status row \<noteq> ''due'' \<and> fps_status row \<noteq> ''overdue'')"
    by (rule fixed_payments_loop_rows_ok [OF assms(1)])
qed

theorem pipeline_days_until_due_at_least_one_witness:
  "valid_datetime \<lparr>dt_year = 2024, dt_month = 2, dt_day = 20, dt_hour = 8, dt_minute = 15,
              dt_second = 0, dt_microsecond = 0\<rparr> \<and>
   payment_with_status
     \<lparr>dt_year = 2024, dt_month = 2, dt_day = 20, dt_hour = 8, dt_minute = 15,
              dt_second = 0, dt_microsecond = 0\<rparr>
     \<lparr>dt_year = 2024, dt_month = 2, dt_day = 20, dt_hour = 8, dt_minute = 15,
              dt_second = 0, dt_microsecond = 0\<rparr>
     \<lparr>fp_id = 1, fp_user_id = 7, fp_name = ''rent'', fp_amount = 500, fp_due_day = 31,
      fp_is_active = True, fp_auto_register = False\<rparr> =
   Inr \<lparr>fps_payment = \<lparr>fp_id = 1, fp_user_id = 7, fp_name = ''rent'', fp_amount = 500,
           fp_due_day = 31, fp_is_active = True, fp_auto_register = False\<rparr>,
        fps_next_due = midnight 2024 2 29, fps_days_until_due = 9,
        fps_status = ''upcoming''\<rparr> \<and>
   get_payment_status \<lparr>fp_id = 1, fp_user_id = 7, fp_name = ''rent'', fp_amount = 500,
      fp_due_day = 31, fp_is_active = True, fp_auto_register = False\<rparr> 0 = ''due''"
proof -
  let ?now = "\<lparr>dt_year = 2024, dt_month = 2, dt_day = 20, dt_hour = 8, dt_minute = 15,
              dt_second = 0, dt_microsecond = 0\<rparr>"
  let ?p = "\<lparr>fp_id = 1, fp_user_id = 7, fp_name = ''rent'', fp_amount = 500, fp_due_day = 31,
      fp_is_active = True, fp_auto_register = False\<rparr>"
  have d: "days_in_month 2024 2 = 29"
    by (simp add: days_in_month_def mdays_def isleap_def)
  have v: "valid_datetime ?now"
    by (simp add: valid_datetime_def d)
  have r: "calculate_next_due_date ?now 31 = Inr (midnight 2024 2 29)"
    by (simp add: calculate_next_due_date_def next_due_try_def monthrange_ndays_def
        mk_datetime_def days_in_month_def mdays_def isleap_def dt_le_def dt_tuple_def
        midnight_def Let_def)
  have o: "toordinal (midnight 2024 2 29) - toordinal ?now = 9"
    by (simp add: toordinal_def ymd2ord_def midnight_def)
  have row: "payment_with_status ?now ?now ?p =
     Inr \<lparr>fps_payment = ?p, fps_next_due = midnight 2024 2 29, fps_days_until_due = 9,
        fps_status = ''upcoming''\<rparr>"
    by (simp add: payment_with_status_def r o Let_def get_payment_status_def)
  show ?thesis
    using pipeline_days_until_due_at_least_one [of ?now ?p, OF v] v row
    by (simp add: get_payment_status_def)
qed

section \<open>Budget status\<close>

text \<open>
  Claim C3. For every budget and every spent amount \<open>\<ge> 0\<close>, the evaluator returns
  the percentage \<open>spent_amount / limit * 100\<close> when the limit is positive and \<open>0\<close>
  otherwise, and the status is \<open>exceeded\<close> exactly when the percentage is \<open>\<ge> 100\<close>,
  \<open>warning\<close> exactly when it lies in \<open>[80, 100)\<close> and \<open>normal\<close> exactly when it is below
  80. The evaluator is a function of the budget and the amount alone.
\<close>

theorem budget_status_evaluator:
  assumes "0 \<le> spent_amount"
  shows "bws_spent_amount (evaluate_budget budget spent_amount) = spent_amount \<and>
         bws_percentage (evaluate_budget budget spent_amount) =
           (if b_amount budget > 0 then spent_amount / b_amount budget * 100 else 0) \<and>
         bws_status (evaluate_budget budget spent_amount) =
           calculate_budget_status budget spent_amount \<and>
         (bws_status (evaluate_budget budget spent_amount) = ''exceeded'') =
           (100 \<le> bws_percentage (evaluate_budget budget spent_amount)) \<and>
         (bws_status (evaluate_budget budget spent_amount) = ''warning'') =
           (80 \<le> bws_percentage (evaluate_budget budget spent_amount) \<and>
            bws_percentage (evaluate_budget budget spent_amount) < 100) \<and>
         (bws_status (evaluate_budget budget spent_amount) = ''normal'') =
           (bws_percentage (evaluate_budget budget spent_amount) < 80)"
  using assms
  by (simp add: evaluate_budget_def calculate_budget_status_def Let_def)

theorem budget_status_evaluator_witness:
  "(0::real) \<le> 80 \<and>
   evaluate_budget \<lparr>b_id = 1, b_user_id = 1, b_category = ''food'', b_amount = 100,
                     b_month = 5, b_year = 2024\<rparr> 80 =
   \<lparr>bws_budget = \<lparr>b_id = 1, b_user_id = 1, b_category = ''food'', b_amount = 100,
                     b_month = 5, b_year = 2024\<rparr>,
     bws_spent_amount = 80, bws_percentage = 80, bws_status = ''warning''\<rparr> \<and>
   calculate_budget_status \<lparr>b_id = 1, b_user_id = 1, b_category = ''food'', b_amount = 100,
                     b_month = 5, b_year = 2024\<rparr> 100 = ''exceeded'' \<and>
   calculate_budget_status \<lparr>b_id = 1, b_user_id = 1, b_category = ''food'', b_amount = 0,
                     b_month = 5, b_year = 2024\<rparr> 100 = ''normal''"
  using budget_status_evaluator [of 80 "\<lparr>b_id = 1, b_user_id = 1, b_category = ''food'',
          b_amount = 100, b_month = 5, b_year = 2024\<rparr>"]
  by (simp add: evaluate_budget_def calculate_budget_status_def Let_def)

section \<open>Creating and updating budgets\<close>

lemma fold_max_ge: "(a::int) \<le> fold max xs a"
  by (induction xs arbitrary: a) (auto intro: order_trans [OF max.cobounded2])

lemma fold_max_upper: "x \<in> set xs \<Longrightarrow> (x::int) \<le> fold max xs a"
proof (induction xs arbitrary: a)
  case Nil
  then show ?case by simp
next
  case (Cons y ys)
  show ?case
  proof (cases "x = y")
    case True
    have "y \<le> max y a" by simp
    also have "\<dots> \<le> fold max ys (max y a)" by (rule fold_max_ge)
    finally show ?thesis using True by simp
  next
    case False
    then have "x \<in> set ys" using Cons.prems by simp
    then show ?thesis using Cons.IH by simp
  qed
qed

lemma next_id_fresh: "next_id ids \<notin> set ids"
proof
  assume "next_id ids \<in> set ids"
  then have "next_id ids \<le> fold max ids 0" by (rule fold_max_upper)
  then show False by (simp add: next_id_def)
qed

text \<open>
  Claim C7. If the caller already has a budget with the requested category, month and
  year, \<open>create_budget\<close> fails with the client error 400 and the table is unchanged
  (nothing is stored or merged). Otherwise the table grows by exactly one row, which has
  the requested fields, the caller as owner and a key no other row has.
\<close>

theorem create_budget_rejects_duplicate:
  "(if \<exists>b \<in> set db. b_user_id b = u_id current_user \<and> b_category b = bc_category budget \<and>
                      b_month b = bc_month budget \<and> b_year b = bc_year budget
    then create_budget budget db current_user = (Inl (HTTPException 400), db)
    else (\<exists>new. create_budget budget db current_user = (Inr new, db @ [new]) \<and>
                b_user_id new = u_id current_user \<and> b_category new = bc_category budget \<and>
                b_amount new = bc_amount budget \<and> b_month new = bc_month budget \<and>
                b_year new = bc_year budget \<and> b_id new \<notin> set (map b_id db)))"
proof (cases "filter (\<lambda>b. b_user_id b = u_id current_user \<and> b_category b = bc_category budget \<and>
                        b_month b = bc_month budget \<and> b_year b = bc_year budget) db")
  case Nil
  then have "\<not> (\<exists>b \<in> set db. b_user_id b = u_id current_user \<and> b_category b = bc_category budget \<and>
                      b_month b = bc_month budget \<and> b_year b = bc_year budget)"
    by (simp add: filter_empty_conv)
  then show ?thesis
    using Nil next_id_fresh [of "map b_id db"]
    by (simp add: create_budget_def Let_def)
next
  case (Cons e es)
  then have "e \<in> set (filter (\<lambda>b. b_user_id b = u_id current_user \<and> b_category b = bc_category budget \<and>
                        b_month b = bc_month budget \<and> b_year b = bc_year budget) db)"
    by simp
  then have "\<exists>b \<in> set db. b_user_id b = u_id current_user \<and> b_category b = bc_category budget \<and>
                      b_month b = bc_month budget \<and> b_year b = bc_year budget"
    by auto
  then show ?thesis using Cons by (simp add: create_budget_def)
qed

theorem create_budget_rejects_duplicate_witness:
  "create_budget \<lparr>bc_category = ''food'', bc_amount = 250, bc_month = 5, bc_year = 2024\<rparr>
     [\<lparr>b_id = 1, b_user_id = 7, b_category = ''food'', b_amount = 100, b_month = 5, b_year = 2024\<rparr>]
     \<lparr>u_id = 7, u_email = ''a@b.c'', u_name = ''Ana''\<rparr> =
   (Inl (HTTPException 400),
     [\<lparr>b_id = 1, b_user_id = 7, b_category = ''food'', b_amount = 100, b_month = 5, b_year = 2024\<rparr>]) \<and>
   create_budget \<lparr>bc_category = ''food'', bc_amount = 250, bc_month = 6, bc_year = 2024\<rparr>
     [\<lparr>b_id = 1, b_user_id = 7, b_category = ''food'', b_amount = 100, b_month = 5, b_year = 2024\<rparr>]
     \<lparr>u_id = 7, u_email = ''a@b.c'', u_name = ''Ana''\<rparr> =
   (Inr \<lparr>b_id = 2, b_user_id = 7, b_category = ''food'', b_amount = 250, b_month = 6, b_year = 2024\<rparr>,
     [\<lparr>b_id = 1, b_user_id = 7, b_category = ''food'', b_amount = 100, b_month = 5, b_year = 2024\<rparr>,
      \<lparr>b_id = 2, b_user_id = 7, b_category = ''food'', b_amount = 250, b_month = 6, b_year = 2024\<rparr>])"
proof -
  let ?db = "[\<lparr>b_id = 1, b_user_id = 7, b_category = ''food'', b_amount = 100, b_month = 5, b_year = 2024\<rparr>]"
  let ?u = "\<lparr>u_id = 7, u_email = ''a@b.c'', u_name = ''Ana''\<rparr>"
  have a: "create_budget \<lparr>bc_category = ''food'', bc_amount = 250, bc_month = 5, bc_year = 2024\<rparr>
             ?db ?u = (Inl (HTTPException 400), ?db)"
    using create_budget_rejects_duplicate
      [of ?db ?u "\<lparr>bc_category = ''food'', bc_amount = 250, bc_month = 5, bc_year = 2024\<rparr>"]
    by simp
  have b: "create_budget \<lparr>bc_category = ''food'', bc_amount = 250, bc_month = 6, bc_year = 2024\<rparr>
     ?db ?u =
   (Inr \<lparr>b_id = 2, b_user_id = 7, b_category = ''food'', b_amount = 250, b_month = 6, b_year = 2024\<rparr>,
     ?db @ [\<lparr>b_id = 2, b_user_id = 7, b_category = ''food'', b_amount = 250, b_month = 6, b_year = 2024\<rparr>])"
    by (simp add: create_budget_def next_id_def Let_def)
  show ?thesis using a b by simp
qed

lemma replace_first_map:
  assumes "filter P xs = b # bs" "g y = g b"
  shows "map g (replace_first P y xs) = map g xs"
  using assms(1)
proof (induction xs)
  case Nil
  then show ?case by simp
next
  case (Cons x xs)
  then show ?case using assms(2) by (cases "P x") auto
qed

lemma replace_first_mem:
  assumes "filter P xs = b # bs"
  shows "y \<in> set (replace_first P y xs)"
  using assms by (induction xs) (auto split: if_splits)

lemma filter_Cons_mem:
  assumes "filter P xs = b # bs"
  shows "b \<in> set xs \<and> P b"
proof -
  have "b \<in> set (filter P xs)" using assms by simp
  then show ?thesis by simp
qed

lemma update_budget_frame:
  assumes "update_budget budget_id budget_update db current_user = (Inr budget', db')"
  shows "map b_id db' = map b_id db \<and> map budget_key db' = map budget_key db \<and>
         budget' \<in> set db' \<and>
         (\<exists>old \<in> set db. b_id old = budget_id \<and> b_user_id old = u_id current_user \<and>
             budget' = old\<lparr>b_amount := b_amount budget'\<rparr> \<and>
             b_amount budget' =
               (case bu_amount budget_update of Some (Some v) \<Rightarrow> v | _ \<Rightarrow> b_amount old))"
proof (cases "filter (\<lambda>b. b_id b = budget_id \<and> b_user_id b = u_id current_user) db")
  case Nil
  then show ?thesis using assms by (simp add: update_budget_def)
next
  case (Cons old rest)
  note mem = filter_Cons_mem [OF Cons]
  show ?thesis
  proof (cases "bu_amount budget_update")
    case None
    then have "budget' = old" "db' = db" using assms Cons by (simp_all add: update_budget_def)
    then show ?thesis using mem None by auto
  next
    case (Some a)
    show ?thesis
    proof (cases a)
      case None
      then show ?thesis using assms Cons Some by (simp add: update_budget_def)
    next
      case (Some v)
      then have b: "budget' = old\<lparr>b_amount := v\<rparr>"
        and d: "db' = replace_first (\<lambda>b. b_id b = budget_id \<and> b_user_id b = u_id current_user)
                  (old\<lparr>b_amount := v\<rparr>) db"
        using assms Cons \<open>bu_amount budget_update = Some a\<close>
        by (auto simp: update_budget_def Let_def)
      have "map b_id db' = map b_id db"
        unfolding d by (rule replace_first_map [OF Cons]) simp
      moreover have "map budget_key db' = map budget_key db"
        unfolding d by (rule replace_first_map [OF Cons]) (simp add: budget_key_def)
      moreover have "budget' \<in> set db'"
        unfolding d b by (rule replace_first_mem [OF Cons])
      ultimately show ?thesis
        using mem b Some \<open>bu_amount budget_update = Some a\<close> by auto
    qed
  qed
qed

lemma replace_first_split:
  assumes "filter P xs = b # bs"
  shows "\<exists>pre post. xs = pre @ b # post \<and> (\<forall>x \<in> set pre. \<not> P x) \<and>
           replace_first P y xs = pre @ y # post"
  using assms
proof (induction xs)
  case Nil
  then show ?case by simp
next
  case (Cons x xs)
  show ?case
  proof (cases "P x")
    case True
    then have "x = b" using Cons.prems by simp
    then have "x # xs = [] @ b # xs \<and> (\<forall>x \<in> set []. \<not> P x) \<and>
               replace_first P y (x # xs) = [] @ y # xs"
      using True by simp
    then show ?thesis by blast
  next
    case False
    then have "filter P xs = b # bs" using Cons.prems by simp
    from Cons.IH [OF this] obtain pre post where
      "xs = pre @ b # post" "\<forall>x \<in> set pre. \<not> P x" "replace_first P y xs = pre @ y # post"
      by blast
    then have "x # xs = (x # pre) @ b # post \<and> (\<forall>z \<in> set (x # pre). \<not> P z) \<and>
               replace_first P y (x # xs) = (x # pre) @ y # post"
      using False by simp
    then show ?thesis by blast
  qed
qed

lemma update_budget_split:
  assumes "update_budget budget_id budget_update db current_user = (Inr budget', db')"
  shows "\<exists>pre old post. db = pre @ old # post \<and> db' = pre @ budget' # post \<and>
           (\<forall>b \<in> set pre. \<not> (b_id b = budget_id \<and> b_user_id b = u_id current_user)) \<and>
           b_id old = budget_id \<and> b_user_id old = u_id current_user \<and>
           budget' = old\<lparr>b_amount := b_amount budget'\<rparr>"
proof (cases "filter (\<lambda>b. b_id b = budget_id \<and> b_user_id b = u_id current_user) db")
  case Nil
  then show ?thesis using assms by (simp add: update_budget_def)
next
  case (Cons old rest)
  note mem = filter_Cons_mem [OF Cons]
  show ?thesis
  proof (cases "bu_amount budget_update")
    case None
    then have e: "budget' = old" "db' = db" using assms Cons by (simp_all add: update_budget_def)
    from replace_first_split [OF Cons, of old] obtain pre post where
      p: "db = pre @ old # post"
      "\<forall>b \<in> set pre. \<not> (b_id b = budget_id \<and> b_user_id b = u_id current_user)"
      by blast
    have "db = pre @ old # post \<and> db' = pre @ budget' # post \<and>
           (\<forall>b \<in> set pre. \<not> (b_id b = budget_id \<and> b_user_id b = u_id current_user)) \<and>
           b_id old = budget_id \<and> b_user_id old = u_id current_user \<and>
           budget' = old\<lparr>b_amount := b_amount budget'\<rparr>"
      using p e mem by simp
    then show ?thesis by blast
  next
    case (Some a)
    show ?thesis
    proof (cases a)
      case None
      then show ?thesis using assms Cons Some by (simp add: update_budget_def)
    next
      case (Some v)
      then have b: "budget' = old\<lparr>b_amount := v\<rparr>"
        and d: "db' = replace_first (\<lambda>b. b_id b = budget_id \<and> b_user_id b = u_id current_user)
                  budget' db"
        using assms Cons \<open>bu_amount budget_update = Some a\<close>
        by (auto simp: update_budget_def Let_def)
      from replace_first_split [OF Cons, of budget'] obtain pre post where
        "db = pre @ old # post"
        "\<forall>b \<in> set pre. \<not> (b_id b = budget_id \<and> b_user_id b = u_id current_user)"
        "db' = pre @ budget' # post"
        unfolding d by blast
      moreover have "budget' = old\<lparr>b_amount := b_amount budget'\<rparr>" using b by simp
      ultimately show ?thesis using mem by blast
    qed
  qed
qed

lemma update_budget_other_rows:
  assumes "update_budget budget_id budget_update db current_user = (Inr budget', db')"
    and "i < length db"
    and "\<not> (b_id (db ! i) = budget_id \<and> b_user_id (db ! i) = u_id current_user)"
  shows "db' ! i = db ! i"
proof -
  from update_budget_split [OF assms(1)] obtain pre old post where
    s: "db = pre @ old # post" "db' = pre @ budget' # post"
       "b_id old = budget_id \<and> b_user_id old = u_id current_user"
    by blast
  have "i \<noteq> length pre"
  proof
    assume "i = length pre"
    then have "db ! i = old" using s(1) by simp
    then show False using assms(3) s(3) by simp
  qed
  then show ?thesis
    unfolding s(1,2) by (simp add: nth_append nth_Cons')
qed

text \<open>
  Claim C10. \<open>update_budget\<close> can change only the amount of the addressed budget.
  After a successful update the table is the old one with a single row replaced: the
  first row with the requested id owned by the caller, replaced by the returned budget,
  which equals it up to the amount (the requested amount when the request sets it).
  Every other row is kept as it is, in particular every row of another user and every
  other budget of the caller. All rows keep their id, owner, category, month and year,
  so keys that were unique per (user, category, month, year) stay unique. The update
  succeeds whenever the caller owns a budget with that id and the request does not set
  the amount to null.
\<close>

theorem update_budget_changes_only_amount:
  "(\<forall>budget' db'. update_budget budget_id budget_update db current_user = (Inr budget', db') \<longrightarrow>
      length db' = length db \<and>
      map b_id db' = map b_id db \<and> map b_user_id db' = map b_user_id db \<and>
      map b_category db' = map b_category db \<and> map b_month db' = map b_month db \<and>
      map b_year db' = map b_year db \<and> budget' \<in> set db' \<and>
      (\<exists>old \<in> set db. b_id old = budget_id \<and> b_user_id old = u_id current_user \<and>
          budget' = old\<lparr>b_amount := b_amount budget'\<rparr> \<and>
          b_amount budget' =
            (case bu_amount budget_update of Some (Some v) \<Rightarrow> v | _ \<Rightarrow> b_amount old)) \<and>
      (distinct (map budget_key db) \<longrightarrow> distinct (map budget_key db')) \<and>
      (\<forall>i < length db.
          \<not> (b_id (db ! i) = budget_id \<and> b_user_id (db ! i) = u_id current_user) \<longrightarrow>
          db' ! i = db ! i) \<and>
      (\<exists>pre old post. db = pre @ old # post \<and> db' = pre @ budget' # post \<and>
          (\<forall>b \<in> set pre. \<not> (b_id b = budget_id \<and> b_user_id b = u_id current_user)) \<and>
          b_id old = budget_id \<and> b_user_id old = u_id current_user \<and>
          budget' = old\<lparr>b_amount := b_amount budget'\<rparr>))
   \<and> ((\<exists>b \<in> set db. b_id b = budget_id \<and> b_user_id b = u_id current_user) \<and>
        bu_amount budget_update \<noteq> Some None \<longrightarrow>
        (\<exists>budget' db'. update_budget budget_id budget_update db current_user = (Inr budget', db')))"
proof (intro conjI allI impI)
  fix budget' db'
  assume a: "update_budget budget_id budget_update db current_user = (Inr budget', db')"
  note f = update_budget_frame [OF a]
  have k: "map budget_key db' = map budget_key db" using f by simp
  show "map b_id db' = map b_id db" using f by simp
  then show "length db' = length db" using map_eq_imp_length_eq by blast
  have "map (\<lambda>b. fst (budget_key b)) db' = map (\<lambda>b. fst (budget_key b)) db"
    using arg_cong [OF k, of "map fst"] by (simp add: comp_def)
  then show "map b_user_id db' = map b_user_id db" by (simp add: budget_key_def)
  have "map (\<lambda>b. fst (snd (budget_key b))) db' = map (\<lambda>b. fst (snd (budget_key b))) db"
    using arg_cong [OF k, of "map (\<lambda>p. fst (snd p))"] by (simp add: comp_def)
  then show "map b_category db' = map b_category db" by (simp add: budget_key_def)
  have "map (\<lambda>b. fst (snd (snd (budget_key b)))) db' = map (\<lambda>b. fst (snd (snd (budget_key b)))) db"
    using arg_cong [OF k, of "map (\<lambda>p. fst (snd (snd p)))"] by (simp add: comp_def)
  then show "map b_month db' = map b_month db" by (simp add: budget_key_def)
  have "map (\<lambda>b. snd (snd (snd (budget_key b)))) db' = map (\<lambda>b. snd (snd (snd (budget_key b)))) db"
    using arg_cong [OF k, of "map (\<lambda>p. snd (snd (snd p)))"] by (simp add: comp_def)
  then show "map b_year db' = map b_year db" by (simp add: budget_key_def)
  show "budget' \<in> set db'" using f by simp
  show "\<exists>old \<in> set db. b_id old = budget_id \<and> b_user_id old = u_id current_user \<and>
          budget' = old\<lparr>b_amount := b_amount budget'\<rparr> \<and>
          b_amount budget' =
            (case bu_amount budget_update of Some (Some v) \<Rightarrow> v | _ \<Rightarrow> b_amount old)"
    using f by simp
  show "\<exists>pre old post. db = pre @ old # post \<and> db' = pre @ budget' # post \<and>
          (\<forall>b \<in> set pre. \<not> (b_id b = budget_id \<and> b_user_id b = u_id current_user)) \<and>
          b_id old = budget_id \<and> b_user_id old = u_id current_user \<and>
          budget' = old\<lparr>b_amount := b_amount budget'\<rparr>"
    using a by (rule update_budget_split)
  {
    assume "distinct (map budget_key db)"
    then show "distinct (map budget_key db')" using k by simp
  }
  {
    fix i
    assume "i < length db"
      and "\<not> (b_id (db ! i) = budget_id \<and> b_user_id (db ! i) = u_id current_user)"
    then show "db' ! i = db ! i" using a by (intro update_budget_other_rows)
  }
next
  assume a: "(\<exists>b \<in> set db. b_id b = budget_id \<and> b_user_id b = u_id current_user) \<and>
        bu_amount budget_update \<noteq> Some None"
  then have "filter (\<lambda>b. b_id b = budget_id \<and> b_user_id b = u_id current_user) db \<noteq> []"
    by (simp add: filter_empty_conv)
  then obtain old rest where
    "filter (\<lambda>b. b_id b = budget_id \<and> b_user_id b = u_id current_user) db = old # rest"
    by (cases "filter (\<lambda>b. b_id b = budget_id \<and> b_user_id b = u_id current_user) db") auto
  then show "\<exists>budget' db'. update_budget budget_id budget_update db current_user = (Inr budget', db')"
    using a by (auto simp: update_budget_def Let_def split: option.splits)
qed


theorem update_budget_changes_only_amount_witness:
  "update_budget 1 \<lparr>bu_amount = Some (Some 150)\<rparr>
     [\<lparr>b_id = 1, b_user_id = 7, b_category = ''food'', b_amount = 100, b_month = 5, b_year = 2024\<rparr>,
      \<lparr>b_id = 2, b_user_id = 7, b_category = ''rent'', b_amount = 900, b_month = 5, b_year = 2024\<rparr>,
      \<lparr>b_id = 3, b_user_id = 8, b_category = ''food'', b_amount = 60, b_month = 5, b_year = 2024\<rparr>]
     \<lparr>u_id = 7, u_email = ''a@b.c'', u_name = ''Ana''\<rparr> =
   (Inr \<lparr>b_id = 1, b_user_id = 7, b_category = ''food'', b_amount = 150, b_month = 5, b_year = 2024\<rparr>,
     [\<lparr>b_id = 1, b_user_id = 7, b_category = ''food'', b_amount = 150, b_month = 5, b_year = 2024\<rparr>,
      \<lparr>b_id = 2, b_user_id = 7, b_category = ''rent'', b_amount = 900, b_month = 5, b_year = 2024\<rparr>,
      \<lparr>b_id = 3, b_user_id = 8, b_category = ''food'', b_amount = 60, b_month = 5, b_year = 2024\<rparr>]) \<and>
   distinct (map budget_key
     [\<lparr>b_id = 1, b_user_id = 7, b_category = ''food'', b_amount = 100, b_month = 5, b_year = 2024\<rparr>,
      \<lparr>b_id = 2, b_user_id = 7, b_category = ''rent'', b_amount = 900, b_month = 5, b_year = 2024\<rparr>,
      \<lparr>b_id = 3, b_user_id = 8, b_category = ''food'', b_amount = 60, b_month = 5, b_year = 2024\<rparr>]) \<and>
   distinct (map budget_key
     [\<lparr>b_id = 1, b_user_id = 7, b_category = ''food'', b_amount = 150, b_month = 5, b_year = 2024\<rparr>,
      \<lparr>b_id = 2, b_user_id = 7, b_category = ''rent'', b_amount = 900, b_month = 5, b_year = 2024\<rparr>,
      \<lparr>b_id = 3, b_user_id = 8, b_category = ''food'', b_amount = 60, b_month = 5, b_year = 2024\<rparr>])"
proof -
  let ?db = "[\<lparr>b_id = 1, b_user_id = 7, b_category = ''food'', b_amount = 100, b_month = 5, b_year = 2024\<rparr>,
      \<lparr>b_id = 2, b_user_id = 7, b_category = ''rent'', b_amount = 900, b_month = 5, b_year = 2024\<rparr>,
      \<lparr>b_id = 3, b_user_id = 8, b_category = ''food'', b_amount = 60, b_month = 5, b_year = 2024\<rparr>]"
  let ?db' = "[\<lparr>b_id = 1, b_user_id = 7, b_category = ''food'', b_amount = 150, b_month = 5, b_year = 2024\<rparr>,
      \<lparr>b_id = 2, b_user_id = 7, b_category = ''rent'', b_amount = 900, b_month = 5, b_year = 2024\<rparr>,
      \<lparr>b_id = 3, b_user_id = 8, b_category = ''food'', b_amount = 60, b_month = 5, b_year = 2024\<rparr>]"
  let ?u = "\<lparr>u_id = 7, u_email = ''a@b.c'', u_name = ''Ana''\<rparr>"
  have e: "update_budget 1 \<lparr>bu_amount = Some (Some 150)\<rparr> ?db ?u =
     (Inr \<lparr>b_id = 1, b_user_id = 7, b_category = ''food'', b_amount = 150, b_month = 5, b_year = 2024\<rparr>, ?db')"
    by (simp add: update_budget_def Let_def)
  have d: "distinct (map budget_key ?db)"
    by (simp add: budget_key_def)
  have "distinct (map budget_key ?db')"
    using update_budget_changes_only_amount [of 1 "\<lparr>bu_amount = Some (Some 150)\<rparr>" ?db ?u] e d
    by blast
  then show ?thesis using e d by simp
qed

section \<open>Creating notifications\<close>

text \<open>
  Claim C9. \<open>create_notification\<close> takes the owner of the stored notification from
  the request body, not from the caller: two callers sending the same body get the same
  result and the same table, a stored notification is owned by the body's \<open>user_id\<close>,
  and the request succeeds whenever the database accepts that user id. So a caller can
  create a notification owned by another user.
\<close>

theorem create_notification_owner_from_payload:
  "create_notification fk_enforced notification users db caller1 =
   create_notification fk_enforced notification users db caller2 \<and>
   (\<forall>n db'. create_notification fk_enforced notification users db caller1 = (Inr n, db') \<longrightarrow>
      n_user_id n = nc_user_id notification \<and> db' = db @ [n]) \<and>
   (\<not> fk_enforced \<or> nc_user_id notification \<in> set (map u_id users) \<longrightarrow>
      (\<exists>n. create_notification fk_enforced notification users db caller1 = (Inr n, db @ [n]) \<and>
           n_user_id n = nc_user_id notification))"
  by (auto simp: create_notification_def Let_def)

theorem create_notification_owner_from_payload_witness:
  "create_notification True
     \<lparr>nc_title = ''Alert'', nc_message = ''Budget exceeded'',
      nc_notification_type = BUDGET_EXCEEDED, nc_user_id = 8\<rparr>
     [\<lparr>u_id = 7, u_email = ''a@b.c'', u_name = ''Ana''\<rparr>,
      \<lparr>u_id = 8, u_email = ''d@e.f'', u_name = ''Luis''\<rparr>]
     []
     \<lparr>u_id = 7, u_email = ''a@b.c'', u_name = ''Ana''\<rparr> =
   (Inr \<lparr>n_id = 1, n_user_id = 8, n_title = ''Alert'', n_message = ''Budget exceeded'',
          n_notification_type = BUDGET_EXCEEDED, n_is_read = False,
          n_sent_via_email = False, n_sent_via_sms = False\<rparr>,
    [\<lparr>n_id = 1, n_user_id = 8, n_title = ''Alert'', n_message = ''Budget exceeded'',
          n_notification_type = BUDGET_EXCEEDED, n_is_read = False,
          n_sent_via_email = False, n_sent_via_sms = False\<rparr>]) \<and>
   u_id \<lparr>u_id = 7, u_email = ''a@b.c'', u_name = ''Ana''\<rparr> \<noteq> 8"
  using create_notification_owner_from_payload
    [of True "\<lparr>nc_title = ''Alert'', nc_message = ''Budget exceeded'',
      nc_notification_type = BUDGET_EXCEEDED, nc_user_id = 8\<rparr>"
      "[\<lparr>u_id = 7, u_email = ''a@b.c'', u_name = ''Ana''\<rparr>,
      \<lparr>u_id = 8, u_email = ''d@e.f'', u_name = ''Luis''\<rparr>]" "[]"
      "\<lparr>u_id = 7, u_email = ''a@b.c'', u_name = ''Ana''\<rparr>"
      "\<lparr>u_id = 8, u_email = ''d@e.f'', u_name = ''Luis''\<rparr>"]
  by (simp add: create_notification_def Let_def next_id_def)

section \<open>Monthly aggregation\<close>

lemma or_zero_sql_sum: "or_zero (sql_sum xs) = sum_list xs"
  by (simp add: or_zero_def sql_sum_def)

lemma length_filter_by_type:
  "length (filter P xs) =
   length (filter (\<lambda>t. P t \<and> t_type t = INCOME) xs) +
   length (filter (\<lambda>t. P t \<and> t_type t = EXPENSE) xs)"
proof (induction xs)
  case Nil
  then show ?case by simp
next
  case (Cons x xs)
  then show ?case by (cases "t_type x") simp_all
qed

lemma sum_list_nonpos_abs:
  assumes "\<forall>x \<in> set xs. f x \<le> (0::real)"
  shows "\<bar>sum_list (map f xs)\<bar> = sum_list (map (\<lambda>x. \<bar>f x\<bar>) xs) \<and> sum_list (map f xs) \<le> 0"
  using assms by (induction xs) auto

text \<open>
  Claim C4. For the period \<open>(m, y)\<close> the request resolves to, the monthly analysis
  returns \<open>total_income\<close> = the sum of the caller's INCOME amounts of the period,
  \<open>total_expenses\<close> = the absolute value of the sum of the caller's EXPENSE amounts of
  the period (so it is never negative), \<open>balance = total_income - total_expenses\<close>,
  and \<open>transactions_count\<close> = the number of the caller's transactions of both types in
  the period. When expense amounts are stored as negative values, \<open>total_expenses\<close> is
  the sum of their magnitudes: the sign is removed once.
\<close>

theorem monthly_analysis_totals:
  assumes "default_period now month year = (m, y)"
  shows "total_income (dashboard_monthly_analysis now month year db current_user) =
           sum_list (map t_amount (filter (\<lambda>t. t_user_id t = u_id current_user \<and>
              t_type t = INCOME \<and> in_period m y t) db)) \<and>
         total_expenses (dashboard_monthly_analysis now month year db current_user) =
           \<bar>sum_list (map t_amount (filter (\<lambda>t. t_user_id t = u_id current_user \<and>
              t_type t = EXPENSE \<and> in_period m y t) db))\<bar> \<and>
         0 \<le> total_expenses (dashboard_monthly_analysis now month year db current_user) \<and>
         balance (dashboard_monthly_analysis now month year db current_user) =
           total_income (dashboard_monthly_analysis now month year db current_user) -
           total_expenses (dashboard_monthly_analysis now month year db current_user) \<and>
         transactions_count (dashboard_monthly_analysis now month year db current_user) =
           int (length (filter (\<lambda>t. t_user_id t = u_id current_user \<and>
              t_type t = INCOME \<and> in_period m y t) db)) +
           int (length (filter (\<lambda>t. t_user_id t = u_id current_user \<and>
              t_type t = EXPENSE \<and> in_period m y t) db)) \<and>
         ((\<forall>t \<in> set db. t_type t = EXPENSE \<longrightarrow> t_amount t < 0) \<longrightarrow>
            total_expenses (dashboard_monthly_analysis now month year db current_user) =
              sum_list (map (\<lambda>t. \<bar>t_amount t\<bar>) (filter (\<lambda>t. t_user_id t = u_id current_user \<and>
                t_type t = EXPENSE \<and> in_period m y t) db)))"
proof -
  let ?E = "filter (\<lambda>t. t_user_id t = u_id current_user \<and> t_type t = EXPENSE \<and> in_period m y t) db"
  let ?I = "filter (\<lambda>t. t_user_id t = u_id current_user \<and> t_type t = INCOME \<and> in_period m y t) db"
  let ?A = "dashboard_monthly_analysis now month year db current_user"
  have i: "total_income ?A = sum_list (map t_amount ?I)"
    by (simp add: dashboard_monthly_analysis_def assms Let_def income_sum_def or_zero_sql_sum)
  have e: "total_expenses ?A = \<bar>sum_list (map t_amount ?E)\<bar>"
    by (simp add: dashboard_monthly_analysis_def assms Let_def expense_sum_def or_zero_sql_sum)
  have b: "balance ?A = total_income ?A - total_expenses ?A"
    by (simp add: dashboard_monthly_analysis_def assms Let_def)
  have "length (filter (\<lambda>t. t_user_id t = u_id current_user \<and> in_period m y t) db) =
        length (filter (\<lambda>t. (t_user_id t = u_id current_user \<and> in_period m y t) \<and> t_type t = INCOME) db) +
        length (filter (\<lambda>t. (t_user_id t = u_id current_user \<and> in_period m y t) \<and> t_type t = EXPENSE) db)"
    by (rule length_filter_by_type)
  also have "\<dots> = length ?I + length ?E"
    by (simp add: conj_ac)
  finally have c: "transactions_count ?A = int (length ?I) + int (length ?E)"
    by (simp add: dashboard_monthly_analysis_def assms Let_def)
  have n: "total_expenses ?A = sum_list (map (\<lambda>t. \<bar>t_amount t\<bar>) ?E)"
    if "\<forall>t \<in> set db. t_type t = EXPENSE \<longrightarrow> t_amount t < 0"
  proof -
    have "\<forall>t \<in> set ?E. t_amount t \<le> 0" using that by auto
    then show ?thesis using sum_list_nonpos_abs [of ?E t_amount] e by simp
  qed
  show ?thesis using i e b c n by simp
qed

theorem monthly_analysis_totals_witness:
  "default_period (midnight 2024 6 1) (Some 5) (Some 2024) = (5, 2024) \<and>
   dashboard_monthly_analysis (midnight 2024 6 1) (Some 5) (Some 2024)
      [\<lparr>t_id = 1, t_user_id = 7, t_amount = -50, t_description = ''market'',
        t_category = ''food'', t_type = EXPENSE, t_date = midnight 2024 5 2\<rparr>,
       \<lparr>t_id = 2, t_user_id = 7, t_amount = -30, t_description = ''bakery'',
        t_category = ''food'', t_type = EXPENSE, t_date = midnight 2024 5 10\<rparr>,
       \<lparr>t_id = 3, t_user_id = 7, t_amount = 1000, t_description = ''pay'',
        t_category = ''salary'', t_type = INCOME, t_date = midnight 2024 5 1\<rparr>]
      \<lparr>u_id = 7, u_email = ''a@b.c'', u_name = ''Ana''\<rparr> =
   \<lparr>total_income = 1000, total_expenses = 80, balance = 920, transactions_count = 3\<rparr>"
proof -
  let ?db = "[\<lparr>t_id = 1, t_user_id = 7, t_amount = -50, t_description = ''market'',
        t_category = ''food'', t_type = EXPENSE, t_date = midnight 2024 5 2\<rparr>,
       \<lparr>t_id = 2, t_user_id = 7, t_amount = -30, t_description = ''bakery'',
        t_category = ''food'', t_type = EXPENSE, t_date = midnight 2024 5 10\<rparr>,
       \<lparr>t_id = 3, t_user_id = 7, t_amount = 1000, t_description = ''pay'',
        t_category = ''salary'', t_type = INCOME, t_date = midnight 2024 5 1\<rparr>]"
  let ?u = "\<lparr>u_id = 7, u_email = ''a@b.c'', u_name = ''Ana''\<rparr>"
  let ?A = "dashboard_monthly_analysis (midnight 2024 6 1) (Some 5) (Some 2024) ?db ?u"
  have p: "default_period (midnight 2024 6 1) (Some 5) (Some 2024) = (5, 2024)"
    by (simp add: default_period_def truthy_def py_or_def)
  have "total_income ?A = 1000 \<and> total_expenses ?A = 80 \<and>
        balance ?A = total_income ?A - total_expenses ?A \<and> transactions_count ?A = 3"
    using monthly_analysis_totals [OF p, of ?db ?u]
    by (simp add: in_period_def midnight_def)
  then have "?A = \<lparr>total_income = 1000, total_expenses = 80, balance = 920, transactions_count = 3\<rparr>"
    by (cases ?A) simp
  then show ?thesis using p by blast
qed

section \<open>Category breakdown\<close>

lemma sum_groups:
  fixes f :: "'a \<Rightarrow> real"
  assumes "finite C" "g ` set xs \<subseteq> C"
  shows "(\<Sum>c\<in>C. sum_list (map f (filter (\<lambda>t. g t = c) xs))) = sum_list (map f xs)"
  using assms(2)
proof (induction xs)
  case Nil
  then show ?case by simp
next
  case (Cons x xs)
  then have gx: "g x \<in> C" and sub: "g ` set xs \<subseteq> C" by auto
  have "(\<Sum>c\<in>C. sum_list (map f (filter (\<lambda>t. g t = c) (x # xs)))) =
        (\<Sum>c\<in>C. (if g x = c then f x else 0) + sum_list (map f (filter (\<lambda>t. g t = c) xs)))"
    by (rule sum.cong) simp_all
  also have "\<dots> = (\<Sum>c\<in>C. if g x = c then f x else 0) +
                  (\<Sum>c\<in>C. sum_list (map f (filter (\<lambda>t. g t = c) xs)))"
    by (rule sum.distrib)
  also have "(\<Sum>c\<in>C. if g x = c then f x else 0) = f x"
    using assms(1) gx by (simp add: sum.delta')
  also have "(\<Sum>c\<in>C. sum_list (map f (filter (\<lambda>t. g t = c) xs))) = sum_list (map f xs)"
    using Cons.IH [OF sub] .
  finally show ?case by simp
qed

lemma sum_list_groups:
  fixes f :: "'a \<Rightarrow> real"
  assumes "distinct cats" "set cats = g ` set xs"
  shows "sum_list (map (\<lambda>c. sum_list (map f (filter (\<lambda>t. g t = c) xs))) cats) =
         sum_list (map f xs)"
proof -
  have "sum_list (map (\<lambda>c. sum_list (map f (filter (\<lambda>t. g t = c) xs))) cats) =
        (\<Sum>c\<in>set cats. sum_list (map f (filter (\<lambda>t. g t = c) xs)))"
    using assms(1) by (rule sum_list_distinct_conv_sum_set)
  also have "\<dots> = sum_list (map f xs)"
    using assms(2) by (intro sum_groups) simp_all
  finally show ?thesis .
qed

lemma sum_list_filter_nonpos:
  assumes "\<forall>x \<in> set xs. f x \<le> (0::real)"
  shows "\<bar>sum_list (map f (filter P xs))\<bar> = - sum_list (map f (filter P xs))"
proof -
  have "\<forall>x \<in> set (filter P xs). f x \<le> 0" using assms by simp
  then have "sum_list (map f (filter P xs)) \<le> 0"
    using sum_list_nonpos_abs [of "filter P xs" f] by simp
  then show ?thesis by simp
qed

lemma sum_list_filter_nonneg:
  assumes "\<forall>x \<in> set xs. (0::real) \<le> f x"
  shows "\<bar>sum_list (map f (filter P xs))\<bar> = sum_list (map f (filter P xs))"
proof -
  have "\<forall>x \<in> set (filter P xs). 0 \<le> f x" using assms by simp
  then have "0 \<le> sum_list (map f (filter P xs))"
    by (intro sum_list_nonneg) auto
  then show ?thesis by simp
qed

lemma sum_list_map_neg:
  fixes h :: "'a \<Rightarrow> real"
  shows "sum_list (map (\<lambda>c. - h c) cs) = - sum_list (map h cs)"
  by (induction cs) simp_all

lemma abs_group_sums:
  fixes f :: "'a \<Rightarrow> real"
  assumes "(\<forall>x \<in> set xs. f x \<le> 0) \<or> (\<forall>x \<in> set xs. 0 \<le> f x)"
    and "distinct cats" "set cats = g ` set xs"
  shows "sum_list (map (\<lambda>c. \<bar>sum_list (map f (filter (\<lambda>t. g t = c) xs))\<bar>) cats) =
         \<bar>sum_list (map f xs)\<bar>"
  using assms(1)
proof
  assume n: "\<forall>x \<in> set xs. f x \<le> 0"
  have "sum_list (map (\<lambda>c. \<bar>sum_list (map f (filter (\<lambda>t. g t = c) xs))\<bar>) cats) =
        sum_list (map (\<lambda>c. - sum_list (map f (filter (\<lambda>t. g t = c) xs))) cats)"
    by (simp only: sum_list_filter_nonpos [OF n])
  also have "\<dots> = - sum_list (map (\<lambda>c. sum_list (map f (filter (\<lambda>t. g t = c) xs))) cats)"
    by (rule sum_list_map_neg)
  also have "\<dots> = - sum_list (map f xs)"
    by (simp only: sum_list_groups [OF assms(2,3)])
  also have "\<dots> = \<bar>sum_list (map f xs)\<bar>"
  proof -
    have "sum_list (map f xs) \<le> 0" using sum_list_nonpos_abs [OF n] by simp
    then show ?thesis by simp
  qed
  finally show ?thesis .
next
  assume p: "\<forall>x \<in> set xs. 0 \<le> f x"
  have "sum_list (map (\<lambda>c. \<bar>sum_list (map f (filter (\<lambda>t. g t = c) xs))\<bar>) cats) =
        sum_list (map (\<lambda>c. sum_list (map f (filter (\<lambda>t. g t = c) xs))) cats)"
    by (simp only: sum_list_filter_nonneg [OF p])
  also have "\<dots> = sum_list (map f xs)"
    by (simp only: sum_list_groups [OF assms(2,3)])
  also have "\<dots> = \<bar>sum_list (map f xs)\<bar>"
    using sum_list_filter_nonneg [OF p, of "\<lambda>_. True"] by simp
  finally show ?thesis .
qed

lemma sum_list_map_scale:
  fixes h :: "'a \<Rightarrow> real"
  shows "sum_list (map (\<lambda>c. h c / d * 100) cs) = sum_list (map h cs) / d * 100"
  by (induction cs) (simp_all add: add_divide_distrib distrib_right)

lemma category_breakdown_rows:
  assumes "default_period now month year = (m, y)"
  shows "dashboard_category_breakdown group_order now month year db current_user =
     map (\<lambda>c. \<lparr>ca_category = c,
                ca_amount = \<bar>sum_list (map t_amount (filter (\<lambda>t. t_category t = c)
                   (filter (\<lambda>t. t_user_id t = u_id current_user \<and> t_type t = EXPENSE \<and>
                       in_period m y t) db)))\<bar>,
                ca_percentage =
                  (if expense_sum db (u_id current_user) m y > 0
                   then \<bar>sum_list (map t_amount (filter (\<lambda>t. t_category t = c)
                      (filter (\<lambda>t. t_user_id t = u_id current_user \<and> t_type t = EXPENSE \<and>
                          in_period m y t) db)))\<bar> / expense_sum db (u_id current_user) m y * 100
                   else 0),
                ca_transaction_count = int (length (filter (\<lambda>t. t_category t = c)
                   (filter (\<lambda>t. t_user_id t = u_id current_user \<and> t_type t = EXPENSE \<and>
                       in_period m y t) db)))\<rparr>)
       (group_order (map t_category (filter (\<lambda>t. t_user_id t = u_id current_user \<and>
           t_type t = EXPENSE \<and> in_period m y t) db)))"
  by (simp add: dashboard_category_breakdown_def assms group_by_category_def Let_def comp_def)

text \<open>
  Claim C5, as amended. The category breakdown has exactly one row for each category
  among the caller's EXPENSE transactions of the period, in the order the database
  returns the groups; its amount is the absolute value of the sum of that category's
  amounts, its count the number of those transactions, and its percentage
  \<open>amount / total_expenses * 100\<close> (0 when \<open>total_expenses\<close> is 0). When
  \<open>total_expenses > 0\<close> and the caller's EXPENSE amounts of the period all have the
  same sign (all \<open>\<le> 0\<close>, the storage convention, or all \<open>\<ge> 0\<close>), the percentages
  sum to 100: exactly so for the real numbers that stand for the \<open>Float\<close> amounts here,
  hence up to floating tolerance in the code's arithmetic. When \<open>total_expenses = 0\<close>
  every percentage is 0.
\<close>

theorem category_breakdown_percentages:
  assumes "default_period now month year = (m, y)"
    and "valid_group_order group_order"
  shows "distinct (map ca_category
           (dashboard_category_breakdown group_order now month year db current_user)) \<and>
         set (map ca_category
           (dashboard_category_breakdown group_order now month year db current_user)) =
           t_category ` {t \<in> set db. t_user_id t = u_id current_user \<and>
              t_type t = EXPENSE \<and> in_period m y t} \<and>
         (\<forall>r \<in> set (dashboard_category_breakdown group_order now month year db current_user).
            ca_amount r = \<bar>sum_list (map t_amount (filter (\<lambda>t. t_user_id t = u_id current_user \<and>
                 t_type t = EXPENSE \<and> in_period m y t \<and> t_category t = ca_category r) db))\<bar> \<and>
            ca_transaction_count r = int (length (filter (\<lambda>t. t_user_id t = u_id current_user \<and>
                 t_type t = EXPENSE \<and> in_period m y t \<and> t_category t = ca_category r) db)) \<and>
            ca_percentage r =
              (if total_expenses (dashboard_monthly_analysis now month year db current_user) = 0
               then 0
               else ca_amount r /
                    total_expenses (dashboard_monthly_analysis now month year db current_user) * 100)) \<and>
         (0 < total_expenses (dashboard_monthly_analysis now month year db current_user) \<and>
          ((\<forall>t \<in> set db. t_user_id t = u_id current_user \<and> t_type t = EXPENSE \<and>
                in_period m y t \<longrightarrow> t_amount t \<le> 0) \<or>
           (\<forall>t \<in> set db. t_user_id t = u_id current_user \<and> t_type t = EXPENSE \<and>
                in_period m y t \<longrightarrow> 0 \<le> t_amount t)) \<longrightarrow>
          sum_list (map ca_percentage
            (dashboard_category_breakdown group_order now month year db current_user)) = 100) \<and>
         (total_expenses (dashboard_monthly_analysis now month year db current_user) = 0 \<longrightarrow>
          (\<forall>r \<in> set (dashboard_category_breakdown group_order now month year db current_user).
             ca_percentage r = 0))"
proof -
  let ?E = "filter (\<lambda>t. t_user_id t = u_id current_user \<and> t_type t = EXPENSE \<and> in_period m y t) db"
  let ?es = "expense_sum db (u_id current_user) m y"
  let ?B = "dashboard_category_breakdown group_order now month year db current_user"
  let ?cats = "group_order (map t_category ?E)"
  have dc: "distinct ?cats" and sc: "set ?cats = t_category ` set ?E"
    using assms(2) by (simp_all add: valid_group_order_def)
  have te: "total_expenses (dashboard_monthly_analysis now month year db current_user) = ?es"
    by (simp add: dashboard_monthly_analysis_def assms(1) Let_def)
  have es: "?es = \<bar>sum_list (map t_amount ?E)\<bar>"
    by (simp add: expense_sum_def or_zero_sql_sum)
  then have nonneg: "0 \<le> ?es" by simp
  note rows = category_breakdown_rows [OF assms(1), of group_order db current_user]
  have ff: "filter (\<lambda>t. t_category t = c) ?E =
            filter (\<lambda>t. t_user_id t = u_id current_user \<and> t_type t = EXPENSE \<and>
                 in_period m y t \<and> t_category t = c) db" for c
    by (simp add: conj_ac)
  have names: "map ca_category ?B = ?cats"
    unfolding rows by (simp add: comp_def)
  have c0: "distinct (map ca_category ?B)"
    unfolding names by (rule dc)
  have c1: "set (map ca_category ?B) =
           t_category ` {t \<in> set db. t_user_id t = u_id current_user \<and>
              t_type t = EXPENSE \<and> in_period m y t}"
    unfolding names sc by simp
  have c2: "\<forall>r \<in> set ?B.
            ca_amount r = \<bar>sum_list (map t_amount (filter (\<lambda>t. t_user_id t = u_id current_user \<and>
                 t_type t = EXPENSE \<and> in_period m y t \<and> t_category t = ca_category r) db))\<bar> \<and>
            ca_transaction_count r = int (length (filter (\<lambda>t. t_user_id t = u_id current_user \<and>
                 t_type t = EXPENSE \<and> in_period m y t \<and> t_category t = ca_category r) db)) \<and>
            ca_percentage r = (if ?es = 0 then 0 else ca_amount r / ?es * 100)"
    unfolding rows using nonneg by (auto simp: ff)
  have c3: "sum_list (map ca_percentage ?B) = 100"
    if pos: "0 < ?es"
      and sgn: "(\<forall>t \<in> set db. t_user_id t = u_id current_user \<and> t_type t = EXPENSE \<and>
                in_period m y t \<longrightarrow> t_amount t \<le> 0) \<or>
           (\<forall>t \<in> set db. t_user_id t = u_id current_user \<and> t_type t = EXPENSE \<and>
                in_period m y t \<longrightarrow> 0 \<le> t_amount t)"
  proof -
    have s: "(\<forall>t \<in> set ?E. t_amount t \<le> 0) \<or> (\<forall>t \<in> set ?E. 0 \<le> t_amount t)"
      using sgn by auto
    have "map ca_percentage ?B =
          map (\<lambda>c. \<bar>sum_list (map t_amount (filter (\<lambda>t. t_category t = c) ?E))\<bar> / ?es * 100) ?cats"
      unfolding rows using pos by (simp add: comp_def)
    then have "sum_list (map ca_percentage ?B) =
          sum_list (map (\<lambda>c. \<bar>sum_list (map t_amount (filter (\<lambda>t. t_category t = c) ?E))\<bar>) ?cats)
            / ?es * 100"
      by (simp only: sum_list_map_scale)
    also have "\<dots> = \<bar>sum_list (map t_amount ?E)\<bar> / ?es * 100"
      by (simp only: abs_group_sums [OF s dc sc])
    also have "\<dots> = 100"
      using pos es by simp
    finally show ?thesis .
  qed
  have c4: "\<forall>r \<in> set ?B. ca_percentage r = 0" if "?es = 0"
    using c2 that by simp
  show ?thesis
    unfolding te using c0 c1 c2 c3 c4 by blast
qed

theorem category_breakdown_percentages_witness:
  "default_period (midnight 2024 6 1) (Some 5) (Some 2024) = (5, 2024) \<and>
   dashboard_category_breakdown remdups (midnight 2024 6 1) (Some 5) (Some 2024)
      [\<lparr>t_id = 1, t_user_id = 7, t_amount = -50, t_description = ''market'',
        t_category = ''food'', t_type = EXPENSE, t_date = midnight 2024 5 2\<rparr>,
       \<lparr>t_id = 2, t_user_id = 7, t_amount = -30, t_description = ''bakery'',
        t_category = ''food'', t_type = EXPENSE, t_date = midnight 2024 5 10\<rparr>,
       \<lparr>t_id = 3, t_user_id = 8, t_amount = 15, t_description = ''cinema'',
        t_category = ''leisure'', t_type = EXPENSE, t_date = midnight 2024 5 11\<rparr>,
       \<lparr>t_id = 4, t_user_id = 7, t_amount = -120, t_description = ''flat'',
        t_category = ''rent'', t_type = EXPENSE, t_date = midnight 2024 5 1\<rparr>]
      \<lparr>u_id = 7, u_email = ''a@b.c'', u_name = ''Ana''\<rparr> =
   [\<lparr>ca_category = ''food'', ca_amount = 80, ca_percentage = 40, ca_transaction_count = 2\<rparr>,
    \<lparr>ca_category = ''rent'', ca_amount = 120, ca_percentage = 60, ca_transaction_count = 1\<rparr>] \<and>
   sum_list (map ca_percentage
     (dashboard_category_breakdown remdups (midnight 2024 6 1) (Some 5) (Some 2024)
      [\<lparr>t_id = 1, t_user_id = 7, t_amount = -50, t_description = ''market'',
        t_category = ''food'', t_type = EXPENSE, t_date = midnight 2024 5 2\<rparr>,
       \<lparr>t_id = 2, t_user_id = 7, t_amount = -30, t_description = ''bakery'',
        t_category = ''food'', t_type = EXPENSE, t_date = midnight 2024 5 10\<rparr>,
       \<lparr>t_id = 3, t_user_id = 8, t_amount = 15, t_description = ''cinema'',
        t_category = ''leisure'', t_type = EXPENSE, t_date = midnight 2024 5 11\<rparr>,
       \<lparr>t_id = 4, t_user_id = 7, t_amount = -120, t_description = ''flat'',
        t_category = ''rent'', t_type = EXPENSE, t_date = midnight 2024 5 1\<rparr>]
      \<lparr>u_id = 7, u_email = ''a@b.c'', u_name = ''Ana''\<rparr>)) = 100"
proof -
  let ?db = "[\<lparr>t_id = 1, t_user_id = 7, t_amount = -50, t_description = ''market'',
        t_category = ''food'', t_type = EXPENSE, t_date = midnight 2024 5 2\<rparr>,
       \<lparr>t_id = 2, t_user_id = 7, t_amount = -30, t_description = ''bakery'',
        t_category = ''food'', t_type = EXPENSE, t_date = midnight 2024 5 10\<rparr>,
       \<lparr>t_id = 3, t_user_id = 8, t_amount = 15, t_description = ''cinema'',
        t_category = ''leisure'', t_type = EXPENSE, t_date = midnight 2024 5 11\<rparr>,
       \<lparr>t_id = 4, t_user_id = 7, t_amount = -120, t_description = ''flat'',
        t_category = ''rent'', t_type = EXPENSE, t_date = midnight 2024 5 1\<rparr>]"
  let ?u = "\<lparr>u_id = 7, u_email = ''a@b.c'', u_name = ''Ana''\<rparr>"
  have p: "default_period (midnight 2024 6 1) (Some 5) (Some 2024) = (5, 2024)"
    by (simp add: default_period_def truthy_def py_or_def)
  have o: "valid_group_order remdups"
    by (simp add: valid_group_order_def)
  have b: "dashboard_category_breakdown remdups (midnight 2024 6 1) (Some 5) (Some 2024) ?db ?u =
   [\<lparr>ca_category = ''food'', ca_amount = 80, ca_percentage = 40, ca_transaction_count = 2\<rparr>,
    \<lparr>ca_category = ''rent'', ca_amount = 120, ca_percentage = 60, ca_transaction_count = 1\<rparr>]"
    by (simp add: dashboard_category_breakdown_def default_period_def truthy_def py_or_def
          group_by_category_def expense_sum_def
          or_zero_def sql_sum_def in_period_def midnight_def Let_def)
  have t: "0 < total_expenses (dashboard_monthly_analysis (midnight 2024 6 1) (Some 5) (Some 2024) ?db ?u)"
    by (simp add: dashboard_monthly_analysis_def default_period_def truthy_def py_or_def
          expense_sum_def or_zero_def sql_sum_def in_period_def midnight_def Let_def)
  have s: "\<forall>t \<in> set ?db. t_user_id t = u_id ?u \<and> t_type t = EXPENSE \<and>
                in_period 5 2024 t \<longrightarrow> t_amount t \<le> 0"
    by simp
  have "sum_list (map ca_percentage
          (dashboard_category_breakdown remdups (midnight 2024 6 1) (Some 5) (Some 2024) ?db ?u)) = 100"
    using category_breakdown_percentages [OF p o, of ?db ?u] t s by blast
  then show ?thesis using p b by blast
qed

text \<open>
  The claim as written fails when expense amounts of both signs are stored (amounts are
  stored as sent): with an expense of \<open>+20\<close> in one category and one of \<open>-50\<close> in
  another, \<open>total_expenses\<close> is 30 and the percentages are \<open>200/3\<close> and \<open>500/3\<close>,
  which sum to \<open>700/3\<close>, far from 100 under any rounding.
\<close>

theorem category_breakdown_counterexample:
  "total_expenses (dashboard_monthly_analysis (midnight 2024 6 1) (Some 5) (Some 2024)
      [\<lparr>t_id = 1, t_user_id = 7, t_amount = 20, t_description = ''returned item'',
        t_category = ''clothes'', t_type = EXPENSE, t_date = midnight 2024 5 2\<rparr>,
       \<lparr>t_id = 2, t_user_id = 7, t_amount = -50, t_description = ''market'',
        t_category = ''food'', t_type = EXPENSE, t_date = midnight 2024 5 10\<rparr>]
      \<lparr>u_id = 7, u_email = ''a@b.c'', u_name = ''Ana''\<rparr>) = 30 \<and>
   map ca_percentage
     (dashboard_category_breakdown remdups (midnight 2024 6 1) (Some 5) (Some 2024)
      [\<lparr>t_id = 1, t_user_id = 7, t_amount = 20, t_description = ''returned item'',
        t_category = ''clothes'', t_type = EXPENSE, t_date = midnight 2024 5 2\<rparr>,
       \<lparr>t_id = 2, t_user_id = 7, t_amount = -50, t_description = ''market'',
        t_category = ''food'', t_type = EXPENSE, t_date = midnight 2024 5 10\<rparr>]
      \<lparr>u_id = 7, u_email = ''a@b.c'', u_name = ''Ana''\<rparr>) = [200 / 3, 500 / 3] \<and>
   sum_list (map ca_percentage
     (dashboard_category_breakdown remdups (midnight 2024 6 1) (Some 5) (Some 2024)
      [\<lparr>t_id = 1, t_user_id = 7, t_amount = 20, t_description = ''returned item'',
        t_category = ''clothes'', t_type = EXPENSE, t_date = midnight 2024 5 2\<rparr>,
       \<lparr>t_id = 2, t_user_id = 7, t_amount = -50, t_description = ''market'',
        t_category = ''food'', t_type = EXPENSE, t_date = midnight 2024 5 10\<rparr>]
      \<lparr>u_id = 7, u_email = ''a@b.c'', u_name = ''Ana''\<rparr>)) = 700 / 3"
  by (simp add: dashboard_category_breakdown_def dashboard_monthly_analysis_def
        default_period_def truthy_def py_or_def group_by_category_def expense_sum_def
        or_zero_def sql_sum_def in_period_def midnight_def Let_def)

section \<open>Monthly trend\<close>

lemma digit_char_inj:
  assumes "a < 10" "b < 10" "digit_char a = digit_char b"
  shows "a = b"
proof -
  have A: "a = 0 \<or> a = 1 \<or> a = 2 \<or> a = 3 \<or> a = 4 \<or> a = 5 \<or> a = 6 \<or> a = 7 \<or> a = 8 \<or> a = 9"
    using assms(1) by arith
  have B: "b = 0 \<or> b = 1 \<or> b = 2 \<or> b = 3 \<or> b = 4 \<or> b = 5 \<or> b = 6 \<or> b = 7 \<or> b = 8 \<or> b = 9"
    using assms(2) by arith
  show ?thesis
    using A B assms(3) by (elim disjE) (simp_all add: digit_char_def)
qed

lemma dec_digits_nonempty: "dec_digits n \<noteq> []"
  by (subst dec_digits.simps) simp

lemma dec_digits_small: "n < 10 \<Longrightarrow> dec_digits n = [digit_char n]"
  by (subst dec_digits.simps) simp

lemma dec_digits_large:
  "\<not> n < 10 \<Longrightarrow> dec_digits n = dec_digits (n div 10) @ [digit_char (n mod 10)]"
  by (subst dec_digits.simps) simp

lemma dec_digits_inj: "dec_digits a = dec_digits b \<Longrightarrow> a = b"
proof (induction a arbitrary: b rule: dec_digits.induct)
  case (1 n)
  show ?case
  proof (cases "n < 10")
    case True
    show ?thesis
    proof (cases "b < 10")
      case b: True
      then show ?thesis
        using "1.prems" True by (simp add: dec_digits_small digit_char_inj)
    next
      case False
      then show ?thesis
        using "1.prems" True dec_digits_nonempty [of "b div 10"]
        by (simp add: dec_digits_small dec_digits_large)
    qed
  next
    case False
    show ?thesis
    proof (cases "b < 10")
      case True
      then show ?thesis
        using "1.prems" False dec_digits_nonempty [of "n div 10"]
        by (simp add: dec_digits_small dec_digits_large)
    next
      case b: False
      from "1.prems" False b
      have e: "dec_digits (n div 10) = dec_digits (b div 10)"
        and d: "digit_char (n mod 10) = digit_char (b mod 10)"
        by (simp_all add: dec_digits_large)
      have "n div 10 = b div 10" using "1.IH" [OF False e] .
      moreover have "n mod 10 = b mod 10"
        by (rule digit_char_inj [OF _ _ d]) simp_all
      ultimately show ?thesis by (metis div_mult_mod_eq)
    qed
  qed
qed

lemma dash_not_digit: "k < 10 \<Longrightarrow> digit_char k \<noteq> CHR ''-''"
proof -
  assume "k < 10"
  then have "k = 0 \<or> k = 1 \<or> k = 2 \<or> k = 3 \<or> k = 4 \<or> k = 5 \<or> k = 6 \<or> k = 7 \<or> k = 8 \<or> k = 9"
    by arith
  then show ?thesis by (elim disjE) (simp_all add: digit_char_def)
qed

lemma format_02d_two_digits:
  assumes "0 \<le> m" "m < 100"
  shows "format_02d m = [digit_char (nat m div 10), digit_char (nat m mod 10)]"
proof (cases "nat m < 10")
  case True
  then show ?thesis
    using assms by (simp add: format_02d_def str_int_def dec_digits_small Let_def digit_char_def)
next
  case False
  then have "nat m div 10 < 10" using assms by simp
  then show ?thesis
    using assms False
    by (simp add: format_02d_def str_int_def dec_digits_large dec_digits_small Let_def)
qed

lemma format_02d_inj:
  assumes "0 \<le> m" "m < 100" "0 \<le> m'" "m' < 100" "format_02d m = format_02d m'"
  shows "m = m'"
proof -
  have d: "digit_char (nat m div 10) = digit_char (nat m' div 10)"
    and u: "digit_char (nat m mod 10) = digit_char (nat m' mod 10)"
    using assms by (simp_all add: format_02d_two_digits)
  have "nat m div 10 = nat m' div 10"
    using assms by (intro digit_char_inj [OF _ _ d]) simp_all
  moreover have "nat m mod 10 = nat m' mod 10"
    by (rule digit_char_inj [OF _ _ u]) simp_all
  ultimately have "nat m = nat m'" by (metis div_mult_mod_eq)
  then show ?thesis using assms by simp
qed

lemma trend_key_inj:
  assumes "0 \<le> y" "0 \<le> y'" "0 \<le> m" "m < 100" "0 \<le> m'" "m' < 100"
    and "trend_key y m = trend_key y' m'"
  shows "y = y' \<and> m = m'"
proof -
  have l: "length (format_02d m) = length (format_02d m')"
    using assms by (simp add: format_02d_two_digits)
  have "(str_int y @ ''-'') @ format_02d m = (str_int y' @ ''-'') @ format_02d m'"
    using assms(7) by (simp add: trend_key_def)
  then have ab: "str_int y @ ''-'' = str_int y' @ ''-'' \<and> format_02d m = format_02d m'"
    using l append_eq_append_conv [of "str_int y @ ''-''" "str_int y' @ ''-''" "format_02d m" "format_02d m'"]
    by blast
  then have a: "str_int y @ ''-'' = str_int y' @ ''-''" and b: "format_02d m = format_02d m'"
    by simp_all
  have "dec_digits (nat y) = dec_digits (nat y')"
    using a assms(1,2) by (simp add: str_int_def)
  then have "nat y = nat y'" by (rule dec_digits_inj)
  then have "y = y'" using assms(1,2) by simp
  moreover have "m = m'" using assms(3-6) b by (rule format_02d_inj)
  ultimately show ?thesis by simp
qed

lemma trend_step_dom:
  "dom (trend_step (y, m, ty, v) td) = insert (trend_key y m) (dom td)"
  by (simp add: trend_step_def Let_def)

lemma trend_loop_dom:
  "dom (trend_loop rows td) = dom td \<union> (\<lambda>row. trend_key (fst row) (fst (snd row))) ` set rows"
proof (induction rows arbitrary: td)
  case Nil
  then show ?case by simp
next
  case (Cons row rows)
  obtain y m ty v where row: "row = (y, m, ty, v)" by (cases row)
  show ?case
    unfolding trend_loop.simps Cons.IH row trend_step_dom by simp
qed

lemma trend_step_income:
  "entry_income (trend_step (y, m, ty, v) td) k =
     (if k = trend_key y m \<and> ty = INCOME then v else entry_income td k)"
  by (simp add: trend_step_def entry_income_def Let_def split: option.splits)

lemma trend_step_expenses:
  "entry_expenses (trend_step (y, m, ty, v) td) k =
     (if k = trend_key y m \<and> ty = EXPENSE then \<bar>v\<bar> else entry_expenses td k)"
  by (cases ty) (simp_all add: trend_step_def entry_expenses_def Let_def split: option.splits)

lemma trend_loop_income_miss:
  assumes "\<forall>(y, m, ty, v) \<in> set rows. \<not> (trend_key y m = k \<and> ty = INCOME)"
  shows "entry_income (trend_loop rows td) k = entry_income td k"
  using assms
proof (induction rows arbitrary: td)
  case Nil
  then show ?case by simp
next
  case (Cons row rows)
  obtain y m ty v where row: "row = (y, m, ty, v)" by (cases row)
  have "entry_income (trend_loop rows (trend_step row td)) k = entry_income (trend_step row td) k"
    using Cons.prems by (intro Cons.IH) simp
  also have "\<dots> = entry_income td k"
    using Cons.prems unfolding row trend_step_income by auto
  finally show ?case by simp
qed

lemma trend_loop_income_hit:
  assumes "\<exists>(y, m, ty, v) \<in> set rows. trend_key y m = k \<and> ty = INCOME"
    and "\<forall>(y, m, ty, v) \<in> set rows. trend_key y m = k \<and> ty = INCOME \<longrightarrow> v = w"
  shows "entry_income (trend_loop rows td) k = w"
  using assms
proof (induction rows arbitrary: td)
  case Nil
  then show ?case by simp
next
  case (Cons row rows)
  obtain y m ty v where row: "row = (y, m, ty, v)" by (cases row)
  have all: "\<forall>(y, m, ty, v) \<in> set rows. trend_key y m = k \<and> ty = INCOME \<longrightarrow> v = w"
    using Cons.prems(2) by simp
  show ?case
  proof (cases "\<exists>(y, m, ty, v) \<in> set rows. trend_key y m = k \<and> ty = INCOME")
    case True
    then show ?thesis using Cons.IH [OF True all] by simp
  next
    case False
    then have miss: "\<forall>(y, m, ty, v) \<in> set rows. \<not> (trend_key y m = k \<and> ty = INCOME)"
      by auto
    have here: "trend_key y m = k \<and> ty = INCOME"
      using Cons.prems(1) False unfolding row by auto
    then have "v = w" using Cons.prems(2) unfolding row by simp
    then have "entry_income (trend_step row td) k = w"
      using here unfolding row trend_step_income by auto
    then show ?thesis
      using trend_loop_income_miss [OF miss, of "trend_step row td"] by simp
  qed
qed

lemma trend_loop_expenses_miss:
  assumes "\<forall>(y, m, ty, v) \<in> set rows. \<not> (trend_key y m = k \<and> ty = EXPENSE)"
  shows "entry_expenses (trend_loop rows td) k = entry_expenses td k"
  using assms
proof (induction rows arbitrary: td)
  case Nil
  then show ?case by simp
next
  case (Cons row rows)
  obtain y m ty v where row: "row = (y, m, ty, v)" by (cases row)
  have "entry_expenses (trend_loop rows (trend_step row td)) k = entry_expenses (trend_step row td) k"
    using Cons.prems by (intro Cons.IH) simp
  also have "\<dots> = entry_expenses td k"
    using Cons.prems unfolding row trend_step_expenses by auto
  finally show ?case by simp
qed

lemma trend_loop_expenses_hit:
  assumes "\<exists>(y, m, ty, v) \<in> set rows. trend_key y m = k \<and> ty = EXPENSE"
    and "\<forall>(y, m, ty, v) \<in> set rows. trend_key y m = k \<and> ty = EXPENSE \<longrightarrow> \<bar>v\<bar> = w"
  shows "entry_expenses (trend_loop rows td) k = w"
  using assms
proof (induction rows arbitrary: td)
  case Nil
  then show ?case by simp
next
  case (Cons row rows)
  obtain y m ty v where row: "row = (y, m, ty, v)" by (cases row)
  have all: "\<forall>(y, m, ty, v) \<in> set rows. trend_key y m = k \<and> ty = EXPENSE \<longrightarrow> \<bar>v\<bar> = w"
    using Cons.prems(2) by simp
  show ?case
  proof (cases "\<exists>(y, m, ty, v) \<in> set rows. trend_key y m = k \<and> ty = EXPENSE")
    case True
    then show ?thesis using Cons.IH [OF True all] by simp
  next
    case False
    then have miss: "\<forall>(y, m, ty, v) \<in> set rows. \<not> (trend_key y m = k \<and> ty = EXPENSE)"
      by auto
    have here: "trend_key y m = k \<and> ty = EXPENSE"
      using Cons.prems(1) False unfolding row by auto
    then have "\<bar>v\<bar> = w" using Cons.prems(2) unfolding row by simp
    then have "entry_expenses (trend_step row td) k = w"
      using here unfolding row trend_step_expenses by auto
    then show ?thesis
      using trend_loop_expenses_miss [OF miss, of "trend_step row td"] by simp
  qed
qed

lemma monthly_data_set:
  "(y, m, ty, v) \<in> set (monthly_data xs) \<longleftrightarrow>
     (\<exists>t \<in> set xs. dt_year (t_date t) = y \<and> dt_month (t_date t) = m \<and> t_type t = ty) \<and>
     v = sum_list (map t_amount (filter (\<lambda>t. dt_year (t_date t) = y \<and>
            dt_month (t_date t) = m \<and> t_type t = ty) xs))"
  by (auto simp: monthly_data_def image_iff)

lemma monthly_data_keys:
  "(\<lambda>row. trend_key (fst row) (fst (snd row))) ` set (monthly_data xs) =
   (\<lambda>t. trend_key (dt_year (t_date t)) (dt_month (t_date t))) ` set xs"
  by (force simp: monthly_data_def image_iff)

lemma valid_trend_key_inj:
  assumes "valid_datetime a" "valid_datetime b"
    and "trend_key (dt_year a) (dt_month a) = trend_key (dt_year b) (dt_month b)"
  shows "dt_year a = dt_year b \<and> dt_month a = dt_month b"
  using assms(1,2) by (intro trend_key_inj [OF _ _ _ _ _ _ assms(3)]) (simp_all add: valid_datetime_def)

lemma trend_entry_of_window:
  assumes valid: "\<forall>t \<in> set xs. valid_datetime (t_date t)"
    and t: "t \<in> set xs"
  shows "trend_loop (monthly_data xs) Map.empty
           (trend_key (dt_year (t_date t)) (dt_month (t_date t))) =
         Some \<lparr>income = sum_list (map t_amount (filter (\<lambda>s.
                   dt_year (t_date s) = dt_year (t_date t) \<and>
                   dt_month (t_date s) = dt_month (t_date t) \<and> t_type s = INCOME) xs)),
               expenses = \<bar>sum_list (map t_amount (filter (\<lambda>s.
                   dt_year (t_date s) = dt_year (t_date t) \<and>
                   dt_month (t_date s) = dt_month (t_date t) \<and> t_type s = EXPENSE) xs))\<bar>\<rparr>"
proof -
  let ?y = "dt_year (t_date t)" and ?m = "dt_month (t_date t)"
  let ?k = "trend_key ?y ?m"
  let ?rows = "monthly_data xs"
  let ?S = "\<lambda>ty. sum_list (map t_amount (filter (\<lambda>s.
                   dt_year (t_date s) = ?y \<and> dt_month (t_date s) = ?m \<and> t_type s = ty) xs))"
  let ?trend = "trend_loop ?rows Map.empty"
  have same: "y = ?y \<and> m = ?m \<and> v = ?S ty"
    if "(y, m, ty, v) \<in> set ?rows" "trend_key y m = ?k" for y m ty v
  proof -
    from that(1) obtain s where s: "s \<in> set xs" "dt_year (t_date s) = y"
        "dt_month (t_date s) = m" "t_type s = ty"
      and v: "v = sum_list (map t_amount (filter (\<lambda>t. dt_year (t_date t) = y \<and>
            dt_month (t_date t) = m \<and> t_type t = ty) xs))"
      unfolding monthly_data_set by blast
    have "trend_key (dt_year (t_date s)) (dt_month (t_date s)) = ?k"
      using that(2) s by simp
    then have "dt_year (t_date s) = ?y \<and> dt_month (t_date s) = ?m"
      using valid s(1) t by (intro valid_trend_key_inj) auto
    then show ?thesis using s v by simp
  qed
  have inc: "entry_income ?trend ?k = ?S INCOME"
  proof (cases "\<exists>(y, m, ty, v) \<in> set ?rows. trend_key y m = ?k \<and> ty = INCOME")
    case True
    moreover have "\<forall>(y, m, ty, v) \<in> set ?rows. trend_key y m = ?k \<and> ty = INCOME \<longrightarrow> v = ?S INCOME"
      using same by auto
    ultimately show ?thesis by (rule trend_loop_income_hit)
  next
    case False
    then have miss: "\<forall>(y, m, ty, v) \<in> set ?rows. \<not> (trend_key y m = ?k \<and> ty = INCOME)"
      by auto
    have "\<not> (\<exists>s \<in> set xs. dt_year (t_date s) = ?y \<and> dt_month (t_date s) = ?m \<and> t_type s = INCOME)"
    proof
      assume "\<exists>s \<in> set xs. dt_year (t_date s) = ?y \<and> dt_month (t_date s) = ?m \<and> t_type s = INCOME"
      then have "(?y, ?m, INCOME, ?S INCOME) \<in> set ?rows"
        unfolding monthly_data_set by simp
      then show False using miss by auto
    qed
    then have "filter (\<lambda>s. dt_year (t_date s) = ?y \<and> dt_month (t_date s) = ?m \<and>
                 t_type s = INCOME) xs = []"
      by (simp add: filter_empty_conv)
    then have "?S INCOME = 0" by simp
    then show ?thesis
      using trend_loop_income_miss [OF miss, of Map.empty] by (simp add: entry_income_def)
  qed
  have exp: "entry_expenses ?trend ?k = \<bar>?S EXPENSE\<bar>"
  proof (cases "\<exists>(y, m, ty, v) \<in> set ?rows. trend_key y m = ?k \<and> ty = EXPENSE")
    case True
    moreover have "\<forall>(y, m, ty, v) \<in> set ?rows. trend_key y m = ?k \<and> ty = EXPENSE \<longrightarrow>
                     \<bar>v\<bar> = \<bar>?S EXPENSE\<bar>"
      using same by auto
    ultimately show ?thesis by (rule trend_loop_expenses_hit)
  next
    case False
    then have miss: "\<forall>(y, m, ty, v) \<in> set ?rows. \<not> (trend_key y m = ?k \<and> ty = EXPENSE)"
      by auto
    have "\<not> (\<exists>s \<in> set xs. dt_year (t_date s) = ?y \<and> dt_month (t_date s) = ?m \<and> t_type s = EXPENSE)"
    proof
      assume "\<exists>s \<in> set xs. dt_year (t_date s) = ?y \<and> dt_month (t_date s) = ?m \<and> t_type s = EXPENSE"
      then have "(?y, ?m, EXPENSE, ?S EXPENSE) \<in> set ?rows"
        unfolding monthly_data_set by simp
      then show False using miss by auto
    qed
    then have "filter (\<lambda>s. dt_year (t_date s) = ?y \<and> dt_month (t_date s) = ?m \<and>
                 t_type s = EXPENSE) xs = []"
      by (simp add: filter_empty_conv)
    then have "?S EXPENSE = 0" by simp
    then show ?thesis
      using trend_loop_expenses_miss [OF miss, of Map.empty] by (simp add: entry_expenses_def)
  qed
  have "?k \<in> dom ?trend"
    unfolding trend_loop_dom monthly_data_keys using t by simp
  then obtain e where e: "?trend ?k = Some e" by auto
  have "income e = ?S INCOME" using inc e by (simp add: entry_income_def)
  moreover have "expenses e = \<bar>?S EXPENSE\<bar>" using exp e by (simp add: entry_expenses_def)
  ultimately have "e = \<lparr>income = ?S INCOME, expenses = \<bar>?S EXPENSE\<bar>\<rparr>"
    by (cases e) simp
  then show ?thesis using e by simp
qed

text \<open>
  Claim C6, as amended. For \<open>N\<close> in 1..24, with \<open>start_date = now - 30 * N\<close> days
  representable and stored dates valid, the monthly trend returns a map keyed by
  \<open>year-MM\<close> that has an entry for exactly the months in which the caller has a
  transaction dated on or after \<open>start_date\<close>. There is no upper bound: a transaction
  dated after \<open>now\<close> contributes as well. The entry of such a month holds the sum of
  the caller's INCOME amounts of that month dated on or after \<open>start_date\<close> and the
  absolute value of the sum of the EXPENSE amounts, each 0 when that side has no
  transaction. Months without such a transaction have no entry, and different months
  have different keys.
\<close>

theorem monthly_trend_entries:
  assumes "1 \<le> months" "months \<le> 24"
    and "dt_sub_days now (months * 30) = Inr start_date"
    and "\<forall>t \<in> set db. valid_datetime (t_date t)"
  shows "\<exists>trend. get_monthly_trend now months db current_user = Inr trend \<and>
     dom trend = (\<lambda>t. trend_key (dt_year (t_date t)) (dt_month (t_date t))) `
                   {t \<in> set db. t_user_id t = u_id current_user \<and> dt_le start_date (t_date t)} \<and>
     (\<forall>t \<in> set db. t_user_id t = u_id current_user \<and> dt_le start_date (t_date t) \<longrightarrow>
        trend (trend_key (dt_year (t_date t)) (dt_month (t_date t))) =
          Some \<lparr>income = sum_list (map t_amount (filter (\<lambda>s.
                     t_user_id s = u_id current_user \<and> dt_le start_date (t_date s) \<and>
                     dt_year (t_date s) = dt_year (t_date t) \<and>
                     dt_month (t_date s) = dt_month (t_date t) \<and> t_type s = INCOME) db)),
                expenses = \<bar>sum_list (map t_amount (filter (\<lambda>s.
                     t_user_id s = u_id current_user \<and> dt_le start_date (t_date s) \<and>
                     dt_year (t_date s) = dt_year (t_date t) \<and>
                     dt_month (t_date s) = dt_month (t_date t) \<and> t_type s = EXPENSE) db))\<bar>\<rparr>) \<and>
     (\<forall>t \<in> set db. \<forall>s \<in> set db.
        trend_key (dt_year (t_date t)) (dt_month (t_date t)) =
        trend_key (dt_year (t_date s)) (dt_month (t_date s)) \<longrightarrow>
        dt_year (t_date t) = dt_year (t_date s) \<and> dt_month (t_date t) = dt_month (t_date s))"
proof -
  let ?W = "trend_window start_date db current_user"
  let ?trend = "trend_loop (monthly_data ?W) Map.empty"
  have g: "get_monthly_trend now months db current_user = Inr ?trend"
    using assms(1-3) by (simp add: get_monthly_trend_def Let_def)
  have w: "set ?W = {t \<in> set db. t_user_id t = u_id current_user \<and> dt_le start_date (t_date t)}"
    by (auto simp: trend_window_def)
  have d: "dom ?trend = (\<lambda>t. trend_key (dt_year (t_date t)) (dt_month (t_date t))) `
                   {t \<in> set db. t_user_id t = u_id current_user \<and> dt_le start_date (t_date t)}"
    unfolding trend_loop_dom monthly_data_keys w by simp
  have validW: "\<forall>t \<in> set ?W. valid_datetime (t_date t)"
    using assms(4) w by simp
  have ff: "filter P ?W = filter (\<lambda>s. t_user_id s = u_id current_user \<and>
               dt_le start_date (t_date s) \<and> P s) db" for P
    by (simp add: trend_window_def conj_ac)
  have v: "?trend (trend_key (dt_year (t_date t)) (dt_month (t_date t))) =
          Some \<lparr>income = sum_list (map t_amount (filter (\<lambda>s.
                     t_user_id s = u_id current_user \<and> dt_le start_date (t_date s) \<and>
                     dt_year (t_date s) = dt_year (t_date t) \<and>
                     dt_month (t_date s) = dt_month (t_date t) \<and> t_type s = INCOME) db)),
                expenses = \<bar>sum_list (map t_amount (filter (\<lambda>s.
                     t_user_id s = u_id current_user \<and> dt_le start_date (t_date s) \<and>
                     dt_year (t_date s) = dt_year (t_date t) \<and>
                     dt_month (t_date s) = dt_month (t_date t) \<and> t_type s = EXPENSE) db))\<bar>\<rparr>"
    if "t \<in> set db" "t_user_id t = u_id current_user \<and> dt_le start_date (t_date t)" for t
  proof -
    have "t \<in> set ?W" using that w by simp
    from trend_entry_of_window [OF validW this] show ?thesis
      by (simp only: ff)
  qed
  have i: "dt_year (t_date t) = dt_year (t_date s) \<and> dt_month (t_date t) = dt_month (t_date s)"
    if "t \<in> set db" "s \<in> set db"
      "trend_key (dt_year (t_date t)) (dt_month (t_date t)) =
        trend_key (dt_year (t_date s)) (dt_month (t_date s))" for t s
    using assms(4) that by (intro valid_trend_key_inj) auto
  show ?thesis
    using g d v i by blast
qed

theorem monthly_trend_entries_witness:
  "dt_sub_days \<lparr>dt_year = 2024, dt_month = 5, dt_day = 15, dt_hour = 12, dt_minute = 0,
                 dt_second = 0, dt_microsecond = 0\<rparr> (6 * 30) =
     Inr \<lparr>dt_year = 2023, dt_month = 11, dt_day = 17, dt_hour = 12, dt_minute = 0,
                 dt_second = 0, dt_microsecond = 0\<rparr> \<and>
   (case get_monthly_trend
           \<lparr>dt_year = 2024, dt_month = 5, dt_day = 15, dt_hour = 12, dt_minute = 0,
                 dt_second = 0, dt_microsecond = 0\<rparr> 6
           [\<lparr>t_id = 1, t_user_id = 7, t_amount = -50, t_description = ''market'',
             t_category = ''food'', t_type = EXPENSE, t_date = midnight 2024 4 2\<rparr>,
            \<lparr>t_id = 2, t_user_id = 7, t_amount = -30, t_description = ''bakery'',
             t_category = ''food'', t_type = EXPENSE, t_date = midnight 2024 4 10\<rparr>,
            \<lparr>t_id = 3, t_user_id = 7, t_amount = 1000, t_description = ''pay'',
             t_category = ''salary'', t_type = INCOME, t_date = midnight 2024 4 1\<rparr>]
           \<lparr>u_id = 7, u_email = ''a@b.c'', u_name = ''Ana''\<rparr> of
      Inl e \<Rightarrow> None
    | Inr trend \<Rightarrow> trend ''2024-04'') = Some \<lparr>income = 1000, expenses = 80\<rparr>"
proof -
  let ?now = "\<lparr>dt_year = 2024, dt_month = 5, dt_day = 15, dt_hour = 12, dt_minute = 0,
                 dt_second = 0, dt_microsecond = 0\<rparr>"
  let ?start = "\<lparr>dt_year = 2023, dt_month = 11, dt_day = 17, dt_hour = 12, dt_minute = 0,
                 dt_second = 0, dt_microsecond = 0\<rparr>"
  let ?t1 = "\<lparr>t_id = 1, t_user_id = 7, t_amount = -50, t_description = ''market'',
             t_category = ''food'', t_type = EXPENSE, t_date = midnight 2024 4 2\<rparr>"
  let ?db = "[?t1,
            \<lparr>t_id = 2, t_user_id = 7, t_amount = -30, t_description = ''bakery'',
             t_category = ''food'', t_type = EXPENSE, t_date = midnight 2024 4 10\<rparr>,
            \<lparr>t_id = 3, t_user_id = 7, t_amount = 1000, t_description = ''pay'',
             t_category = ''salary'', t_type = INCOME, t_date = midnight 2024 4 1\<rparr>]"
  let ?u = "\<lparr>u_id = 7, u_email = ''a@b.c'', u_name = ''Ana''\<rparr>"
  have s: "dt_sub_days ?now (6 * 30) = Inr ?start"
    by (simp add: dt_sub_days_def toordinal_def ymd2ord_def days_before_year_def
          days_before_month_def DAYS_BEFORE_MONTH_def DAYS_IN_MONTH_def isleap_def
          ord2ymd_def Let_def)
  have v: "\<forall>t \<in> set ?db. valid_datetime (t_date t)"
    by (simp add: valid_datetime_def midnight_def days_in_month_def mdays_def)
  have k: "trend_key 2024 4 = ''2024-04''"
    by (simp add: trend_key_def str_int_def format_02d_def dec_digits.simps digit_char_def)
  have a: "(1::int) \<le> 6" "(6::int) \<le> 24" by simp_all
  have t1: "?t1 \<in> set ?db" by simp
  have w: "t_user_id ?t1 = u_id ?u \<and> dt_le ?start (t_date ?t1)"
    by (simp add: midnight_def dt_le_def dt_tuple_def)
  obtain trend where g: "get_monthly_trend ?now 6 ?db ?u = Inr trend"
    and e: "trend (trend_key (dt_year (t_date ?t1)) (dt_month (t_date ?t1))) =
          Some \<lparr>income = sum_list (map t_amount (filter (\<lambda>s.
                     t_user_id s = u_id ?u \<and> dt_le ?start (t_date s) \<and>
                     dt_year (t_date s) = dt_year (t_date ?t1) \<and>
                     dt_month (t_date s) = dt_month (t_date ?t1) \<and> t_type s = INCOME) ?db)),
                expenses = \<bar>sum_list (map t_amount (filter (\<lambda>s.
                     t_user_id s = u_id ?u \<and> dt_le ?start (t_date s) \<and>
                     dt_year (t_date s) = dt_year (t_date ?t1) \<and>
                     dt_month (t_date s) = dt_month (t_date ?t1) \<and> t_type s = EXPENSE) ?db))\<bar>\<rparr>"
    using monthly_trend_entries [OF a s v, of ?u] t1 w by blast
  from e
  have "trend (trend_key 2024 4) = Some \<lparr>income = 1000, expenses = 80\<rparr>"
    by (simp add: midnight_def dt_le_def dt_tuple_def)
  then show ?thesis using s g k by simp
qed

text \<open>
  The claim as written fails for a transaction dated after \<open>now\<close>: the query has no
  upper bound, so with \<open>now\<close> = 2024-05-15 a transaction of 2024-08-01 gives the map an
  entry for August 2024.
\<close>

theorem monthly_trend_counterexample:
  "dt_less \<lparr>dt_year = 2024, dt_month = 5, dt_day = 15, dt_hour = 12, dt_minute = 0,
            dt_second = 0, dt_microsecond = 0\<rparr> (midnight 2024 8 1) \<and>
   (case get_monthly_trend
           \<lparr>dt_year = 2024, dt_month = 5, dt_day = 15, dt_hour = 12, dt_minute = 0,
                 dt_second = 0, dt_microsecond = 0\<rparr> 6
           [\<lparr>t_id = 1, t_user_id = 7, t_amount = 100, t_description = ''advance'',
             t_category = ''salary'', t_type = INCOME, t_date = midnight 2024 8 1\<rparr>]
           \<lparr>u_id = 7, u_email = ''a@b.c'', u_name = ''Ana''\<rparr> of
      Inl e \<Rightarrow> None
    | Inr trend \<Rightarrow> trend ''2024-08'') = Some \<lparr>income = 100, expenses = 0\<rparr>"
  by (simp add: get_monthly_trend_def dt_sub_days_def toordinal_def ymd2ord_def
        days_before_year_def days_before_month_def DAYS_BEFORE_MONTH_def DAYS_IN_MONTH_def
        isleap_def ord2ymd_def Let_def trend_window_def dt_le_def dt_less_def dt_tuple_def
        midnight_def monthly_data_def trend_step_def trend_key_def str_int_def format_02d_def
        dec_digits.simps digit_char_def)

end
